theory Spec2Isabelle
  imports Complex_Main "HOL-Library.AList"
begin

section \<open>Medilocker: documents, collections and the clock\<close>

text \<open>
  The backend keeps all of its state in Firestore collections. A collection is modelled
  as an association list from document id to document, in the order in which a query
  without \<open>orderBy\<close> returns the documents. \<open>doc(id).get()\<close> is \<open>map_of\<close>,
  \<open>doc(id).set(v)\<close> is \<open>AList.update\<close> (it overwrites a document that exists and
  adds one that does not), \<open>doc(id).update(...)\<close> is \<open>AList.map_entry\<close> after the
  existence of the document has been settled, and \<open>FieldValue.increment\<close> on a map
  field is \<open>map_default\<close> (an absent entry starts from the increment).

  Time stamps are milliseconds since the epoch. JavaScript numbers are taken as exact:
  counters are integers and averages are rationals, so rounding is the only place where
  the arithmetic of the source is not the arithmetic of the model.

  The values \<open>uuidv4()\<close>, \<open>Timestamp.now()\<close>, \<open>Date.now()\<close> and
  \<open>new Date().toISOString().split('T')[0]\<close> are inputs of the handler that reads them,
  one value of each for a call.

  A document carries the fields that some handler below reads or writes after the
  document is created. The personal data of a patient (date of birth, gender, blood
  group, emergency contact), the e-mail address of a user and the storage path of a
  version are written once and never read, and are left out. The middleware in front
  of the handlers (authentication, roles, validation of the body) is not part of the
  model: a handler is called with any caller and any body.
\<close>

type_synonym id = string
type_synonym timestamp = int
type_synonym 'a collection = "(id \<times> 'a) list"

datatype role = Patient | Doctor
datatype access_level = Read | Read_write
datatype request_status = Pending | Approved | Denied | Revoked | Expired
datatype change_type = Initial_upload | Update

text \<open>A value of a \<open>metadata\<close> object: a string or a number.\<close>

datatype meta = MStr string | MNum int

text \<open>
  The HTTP status of a failed request: 400, 403, 404, 409 and 500. The handlers answer
  409 both for a conflict (a second active request) and for a state that forbids the
  transition (responding to a request that is not pending, revoking one that is not
  approved).
\<close>

datatype http_error = Bad_request | Forbidden | Not_found | Conflict | Internal_error

record clock =
  ts_now :: timestamp
  date_now :: timestamp
  today_key :: string

text \<open>\<open>req.user\<close>, as the \<open>authenticate\<close> middleware builds it from the user document.\<close>

record user =
  u_uid :: id
  u_role :: role
  u_displayName :: string
  u_isVerified :: bool

record user_profile =
  up_role :: role
  up_displayName :: string
  up_phone :: "string option"
  up_isVerified :: bool
  up_createdAt :: timestamp
  up_updatedAt :: timestamp

record patient =
  pt_displayName :: string
  pt_phone :: "string option"
  pt_totalRecords :: int
  pt_totalVersions :: int
  pt_activeCollaborators :: int
  pt_createdAt :: timestamp
  pt_updatedAt :: timestamp

record doctor_stats =
  st_totalCasesHandled :: int
  st_activeCases :: int
  st_totalRecordsAdded :: int
  st_totalRecordsUpdated :: int
  st_averageResponseTimeHours :: "rat option"
  st_recordAccuracyScore :: "int option"
  st_lastActiveAt :: "timestamp option"

record doctor =
  dr_uid :: id
  dr_displayName :: string
  dr_specialization :: string
  dr_qualifications :: "string list"
  dr_licenseNumber :: string
  dr_hospitalAffiliations :: "string list"
  dr_phone :: "string option"
  dr_yearsOfExperience :: int
  dr_isVerified :: bool
  dr_stats :: doctor_stats
  dr_conditionTags :: "string list"
  dr_contributionGraph :: "(string \<times> int) list"
  dr_endorsementCounts :: "(string \<times> int) list"
  dr_createdAt :: timestamp
  dr_updatedAt :: timestamp

record access_request =
  ar_id :: id
  ar_doctorId :: id
  ar_doctorName :: string
  ar_patientId :: id
  ar_reason :: string
  ar_accessLevel :: access_level
  ar_requestedRecordTypes :: "string list"
  ar_expiryDays :: int
  ar_status :: request_status
  ar_isExpired :: bool
  ar_requestedAt :: timestamp
  ar_respondedAt :: "timestamp option"
  ar_expiresAt :: "timestamp option"
  ar_note :: "string option"
  ar_revokedAt :: "timestamp option"

record med_record =
  rc_id :: id
  rc_patientId :: id
  rc_title :: string
  rc_recordType :: string
  rc_description :: "string option"
  rc_tags :: "string list"
  rc_issuedBy :: "string option"
  rc_issuedDate :: "string option"
  rc_currentVersion :: int
  rc_currentVersionId :: id
  rc_totalVersions :: int
  rc_isArchived :: bool
  rc_createdAt :: timestamp
  rc_updatedAt :: timestamp
  rc_createdBy :: id

record version =
  vn_id :: id
  vn_recordId :: id
  vn_patientId :: id
  vn_versionNumber :: int
  vn_commitMessage :: string
  vn_committedBy :: id
  vn_committedByRole :: role
  vn_fileName :: string
  vn_fileSize :: int
  vn_mimeType :: string
  vn_changeType :: change_type
  vn_createdAt :: timestamp

record commit =
  cm_id :: id
  cm_recordId :: id
  cm_versionId :: id
  cm_patientId :: id
  cm_committedBy :: id
  cm_committedByRole :: role
  cm_commitMessage :: string
  cm_changeType :: change_type
  cm_recordType :: string
  cm_createdAt :: timestamp

record endorsement =
  en_id :: id
  en_endorserId :: id
  en_endorserName :: string
  en_targetDoctorId :: id
  en_skill :: string
  en_note :: "string option"
  en_createdAt :: timestamp

record notification =
  nt_recipientId :: id
  nt_type :: string
  nt_title :: string
  nt_body :: string
  nt_metadata :: "(string \<times> meta) list"
  nt_isRead :: bool
  nt_createdAt :: timestamp

record activity =
  al_actorId :: id
  al_actorRole :: role
  al_action :: string
  al_resourceId :: id
  al_metadata :: "(string \<times> meta) list"
  al_createdAt :: timestamp

text \<open>
  The database. The versions of a record live in the sub-collection
  \<open>records/{recordId}/record_versions\<close>; the model keys them by record id and version id.
  Notifications and the activity log are written under fresh ids and never read back by
  the handlers below, so they are kept as logs.
\<close>

record db =
  users :: "user_profile collection"
  patients :: "patient collection"
  doctors :: "doctor collection"
  records :: "med_record collection"
  record_versions :: "((id \<times> id) \<times> version) list"
  commits :: "commit collection"
  access_requests :: "access_request collection"
  endorsements :: "endorsement collection"
  notifications :: "notification list"
  activity_log :: "activity list"

definition empty_db :: db where
  "empty_db = \<lparr>users = [], patients = [], doctors = [], records = [], record_versions = [],
     commits = [], access_requests = [], endorsements = [], notifications = [],
     activity_log = []\<rparr>"

text \<open>\<open>x || null\<close> on an optional string: an absent or empty string is stored as null.\<close>

definition or_null :: "string option \<Rightarrow> string option" where
  "or_null n = (case n of None \<Rightarrow> None | Some t \<Rightarrow> if t = [] then None else Some t)"

section \<open>Notification and audit collaborators\<close>

text \<open>\<open>createNotification\<close> and \<open>logActivity\<close>: both catch their own failures.\<close>

definition createNotification ::
  "clock \<Rightarrow> id \<Rightarrow> string \<Rightarrow> string \<Rightarrow> string \<Rightarrow> (string \<times> meta) list \<Rightarrow> db \<Rightarrow> db" where
  "createNotification c recipientId type title body metadata s =
     s\<lparr>notifications := notifications s @
        [\<lparr>nt_recipientId = recipientId, nt_type = type, nt_title = title, nt_body = body,
          nt_metadata = metadata, nt_isRead = False, nt_createdAt = ts_now c\<rparr>]\<rparr>"

definition logActivity ::
  "clock \<Rightarrow> id \<Rightarrow> role \<Rightarrow> string \<Rightarrow> id \<Rightarrow> (string \<times> meta) list \<Rightarrow> db \<Rightarrow> db" where
  "logActivity c actorId actorRole action resourceId metadata s =
     s\<lparr>activity_log := activity_log s @
        [\<lparr>al_actorId = actorId, al_actorRole = actorRole, al_action = action,
          al_resourceId = resourceId, al_metadata = metadata, al_createdAt = ts_now c\<rparr>]\<rparr>"

section \<open>Contribution statistics (doctor-stats.service.js)\<close>

record stats_options =
  so_newCase :: bool
  so_caseCompleted :: bool
  so_recordUpdated :: bool
  so_patientId :: "id option"
  so_conditionTags :: "string list option"
  so_responseTimeHours :: "rat option"

definition no_options :: stats_options where
  "no_options = \<lparr>so_newCase = False, so_caseCompleted = False, so_recordUpdated = False,
     so_patientId = None, so_conditionTags = None, so_responseTimeHours = None\<rparr>"

text \<open>
  \<open>parseFloat(x.toFixed(2))\<close>: the nearest multiple of 1/100, a tie going to the larger
  magnitude (\<open>toFixed\<close> rounds the absolute value and puts the sign back). Numbers are
  exact rationals here; the source computes in binary floating point, so a quotient
  that lies within a rounding error of a tie (as for the samples 10.01 and 20) can
  come out one hundredth apart.
\<close>

definition toFixed2 :: "rat \<Rightarrow> rat" where
  "toFixed2 x =
     (if x < 0 then - (of_int \<lfloor>(- x) * 100 + 1 / 2\<rfloor> / 100)
      else of_int \<lfloor>x * 100 + 1 / 2\<rfloor> / 100)"

text \<open>\<open>Math.round\<close>: a tie goes up.\<close>

definition math_round :: "rat \<Rightarrow> int" where
  "math_round x = \<lfloor>x + 1 / 2\<rfloor>"

text \<open>\<open>FieldValue.arrayUnion\<close>: the elements not yet in the array are appended.\<close>

definition arrayUnion :: "'a list \<Rightarrow> 'a list \<Rightarrow> 'a list" where
  "arrayUnion xs ys = fold (\<lambda>y acc. if y \<in> set acc then acc else acc @ [y]) ys xs"

text \<open>\<open>FieldValue.increment(d)\<close> on the entry \<open>k\<close> of a map field.\<close>

definition increment_entry :: "string \<Rightarrow> int \<Rightarrow> (string \<times> int) list \<Rightarrow> (string \<times> int) list" where
  "increment_entry k d m = map_default k d (\<lambda>n. n + d) m"

text \<open>
  \<open>updateDoctorStats\<close>. The keys of the \<open>updates\<close> object are assigned in the source's
  order, so \<open>caseCompleted\<close> replaces the increment that \<open>newCase\<close> put on
  \<open>stats.activeCases\<close>. The average is computed from the document as it is read, before
  any increment of this call is applied. \<open>docRef.update\<close> rejects when the doctor has no
  document; the handler catches that and nothing is written.
\<close>

definition updateDoctorStats :: "clock \<Rightarrow> id \<Rightarrow> stats_options \<Rightarrow> db \<Rightarrow> db" where
  "updateDoctorStats c doctorId options s =
     (case map_of (doctors s) doctorId of
        None \<Rightarrow> s
      | Some doc \<Rightarrow>
          let st = dr_stats doc;
              totalCasesHandled' =
                (if so_newCase options then st_totalCasesHandled st + 1
                 else st_totalCasesHandled st);
              activeCases' =
                (if so_caseCompleted options then st_activeCases st - 1
                 else if so_newCase options then st_activeCases st + 1
                 else st_activeCases st);
              totalRecordsUpdated' =
                (if so_recordUpdated options then st_totalRecordsUpdated st + 1
                 else st_totalRecordsUpdated st);
              averageResponseTimeHours' =
                (case so_responseTimeHours options of
                   None \<Rightarrow> st_averageResponseTimeHours st
                 | Some responseTimeHours \<Rightarrow>
                     (case st_averageResponseTimeHours st of
                        None \<Rightarrow> Some responseTimeHours
                      | Some currentAvg \<Rightarrow>
                          let totalCases =
                                (if st_totalCasesHandled st = 0 then 1
                                 else st_totalCasesHandled st)
                          in Some (toFixed2
                               ((currentAvg * (of_int totalCases - 1) + responseTimeHours)
                                 / of_int totalCases))));
              conditionTags' =
                (case so_conditionTags options of
                   None \<Rightarrow> dr_conditionTags doc
                 | Some tags \<Rightarrow>
                     if tags = [] then dr_conditionTags doc
                     else arrayUnion (dr_conditionTags doc) tags)
          in s\<lparr>doctors := AList.update doctorId
                 (doc\<lparr>dr_updatedAt := ts_now c,
                      dr_stats := st\<lparr>st_lastActiveAt := Some (ts_now c),
                                     st_totalCasesHandled := totalCasesHandled',
                                     st_activeCases := activeCases',
                                     st_totalRecordsUpdated := totalRecordsUpdated',
                                     st_averageResponseTimeHours := averageResponseTimeHours'\<rparr>,
                      dr_contributionGraph :=
                        increment_entry (today_key c) 1 (dr_contributionGraph doc),
                      dr_conditionTags := conditionTags'\<rparr>)
                 (doctors s)\<rparr>)"

section \<open>The access-request state machine (access-requests.controller.js)\<close>

record access_request_body =
  b_patientId :: id
  b_reason :: string
  b_accessLevel :: "access_level option"
  b_requestedRecordTypes :: "string list"
  b_expiryDays :: "int option"

definition access_level_name :: "access_level \<Rightarrow> string" where
  "access_level_name l = (case l of Read \<Rightarrow> ''read'' | Read_write \<Rightarrow> ''read_write'')"

text \<open>
  The query of \<open>createAccessRequest\<close>: the requests of the pair whose status is
  \<open>pending\<close> or \<open>approved\<close>.
\<close>

definition overlapping :: "id \<Rightarrow> id \<Rightarrow> access_request \<Rightarrow> bool" where
  "overlapping doctorId patientId r =
     (ar_doctorId r = doctorId \<and> ar_patientId r = patientId \<and>
      (ar_status r = Pending \<or> ar_status r = Approved))"

definition createAccessRequest ::
  "clock \<Rightarrow> user \<Rightarrow> id \<Rightarrow> access_request_body \<Rightarrow> db \<Rightarrow> (http_error + access_request) \<times> db" where
  "createAccessRequest c u requestId body s =
     (let doctorId = u_uid u; patientId = b_patientId body in
      case map_of (patients s) patientId of
        None \<Rightarrow> (Inl Not_found, s)
      | Some _ \<Rightarrow>
          if take 1 (filter (\<lambda>(_, r). overlapping doctorId patientId r) (access_requests s)) \<noteq> []
          then (Inl Conflict, s)
          else
            let accessRequest =
                  \<lparr>ar_id = requestId, ar_doctorId = doctorId, ar_doctorName = u_displayName u,
                   ar_patientId = patientId, ar_reason = b_reason body,
                   ar_accessLevel = (case b_accessLevel body of None \<Rightarrow> Read | Some l \<Rightarrow> l),
                   ar_requestedRecordTypes = b_requestedRecordTypes body,
                   ar_expiryDays =
                     (case b_expiryDays body of None \<Rightarrow> 30
                      | Some n \<Rightarrow> if n = 0 then 30 else n),
                   ar_status = Pending, ar_isExpired = False, ar_requestedAt = ts_now c,
                   ar_respondedAt = None, ar_expiresAt = None, ar_note = None,
                   ar_revokedAt = None\<rparr>;
                s1 = s\<lparr>access_requests :=
                        AList.update requestId accessRequest (access_requests s)\<rparr>;
                s2 = createNotification c patientId ''access_request'' ''New Access Request''
                       (''Dr. '' @ u_displayName u @
                        '' is requesting access to your medical records.'')
                       [(''requestId'', MStr requestId), (''doctorId'', MStr doctorId)] s1;
                s3 = logActivity c doctorId Doctor ''access_request_created'' requestId
                       [(''patientId'', MStr patientId),
                        (''accessLevel'', MStr (access_level_name (ar_accessLevel accessRequest)))] s2
            in (Inr accessRequest, s3))"

text \<open>
  The handler awaits each of its calls to Firestore and uses no transaction, so other
  requests are served between its reads (the patient document and the query for an
  overlapping request) and its writes (the \<open>set\<close> of the new document, the
  notification and the log entry). The two halves, each on the database as it is when
  that half runs; \<open>uuidv4()\<close> and \<open>Timestamp.now()\<close> are called after the reads.
\<close>

definition createAccessRequest_read ::
  "user \<Rightarrow> access_request_body \<Rightarrow> db \<Rightarrow> http_error + unit" where
  "createAccessRequest_read u body s =
     (let doctorId = u_uid u; patientId = b_patientId body in
      case map_of (patients s) patientId of
        None \<Rightarrow> Inl Not_found
      | Some _ \<Rightarrow>
          if take 1 (filter (\<lambda>(_, r). overlapping doctorId patientId r) (access_requests s)) \<noteq> []
          then Inl Conflict
          else Inr ())"

definition createAccessRequest_write ::
  "clock \<Rightarrow> user \<Rightarrow> id \<Rightarrow> access_request_body \<Rightarrow> db \<Rightarrow> access_request \<times> db" where
  "createAccessRequest_write c u requestId body s =
     (let doctorId = u_uid u; patientId = b_patientId body;
          accessRequest =
            \<lparr>ar_id = requestId, ar_doctorId = doctorId, ar_doctorName = u_displayName u,
             ar_patientId = patientId, ar_reason = b_reason body,
             ar_accessLevel = (case b_accessLevel body of None \<Rightarrow> Read | Some l \<Rightarrow> l),
             ar_requestedRecordTypes = b_requestedRecordTypes body,
             ar_expiryDays =
               (case b_expiryDays body of None \<Rightarrow> 30
                | Some n \<Rightarrow> if n = 0 then 30 else n),
             ar_status = Pending, ar_isExpired = False, ar_requestedAt = ts_now c,
             ar_respondedAt = None, ar_expiresAt = None, ar_note = None,
             ar_revokedAt = None\<rparr>;
          s1 = s\<lparr>access_requests :=
                  AList.update requestId accessRequest (access_requests s)\<rparr>;
          s2 = createNotification c patientId ''access_request'' ''New Access Request''
                 (''Dr. '' @ u_displayName u @
                  '' is requesting access to your medical records.'')
                 [(''requestId'', MStr requestId), (''doctorId'', MStr doctorId)] s1;
          s3 = logActivity c doctorId Doctor ''access_request_created'' requestId
                 [(''patientId'', MStr patientId),
                  (''accessLevel'', MStr (access_level_name (ar_accessLevel accessRequest)))] s2
      in (accessRequest, s3))"

text \<open>
  \<open>respondToAccessRequest\<close>. On approval the doctor's statistics and the patient's
  counter are written before the request itself; \<open>update\<close> on a patient document that
  does not exist rejects, and the handler then answers 500 with the request untouched.
\<close>

definition respondToAccessRequest ::
  "clock \<Rightarrow> user \<Rightarrow> id \<Rightarrow> bool \<Rightarrow> string option \<Rightarrow> db \<Rightarrow> (http_error + access_request) \<times> db" where
  "respondToAccessRequest c u requestId approved note s =
     (let patientId = u_uid u in
      case map_of (access_requests s) requestId of
        None \<Rightarrow> (Inl Not_found, s)
      | Some request \<Rightarrow>
          if ar_patientId request \<noteq> patientId then (Inl Forbidden, s)
          else if ar_status request \<noteq> Pending then (Inl Conflict, s)
          else
            let now = ts_now c;
                newStatus = (if approved then Approved else Denied);
                update = (\<lambda>r. r\<lparr>ar_status := newStatus, ar_respondedAt := Some now,
                                 ar_note := or_null note\<rparr>)
            in if approved then
                 let expiresAt = date_now c + ar_expiryDays request * 24 * 60 * 60 * 1000;
                     update' = (\<lambda>r. (update r)\<lparr>ar_expiresAt := Some expiresAt\<rparr>);
                     s1 = updateDoctorStats c (ar_doctorId request)
                            (no_options\<lparr>so_newCase := True, so_patientId := Some patientId\<rparr>) s
                 in case map_of (patients s1) patientId of
                      None \<Rightarrow> (Inl Internal_error, s1)
                    | Some _ \<Rightarrow>
                        let s2 = s1\<lparr>patients := AList.map_entry patientId
                                   (\<lambda>p. p\<lparr>pt_activeCollaborators := pt_activeCollaborators p + 1,
                                          pt_updatedAt := now\<rparr>) (patients s1)\<rparr>;
                            s3 = s2\<lparr>access_requests :=
                                   AList.map_entry requestId update' (access_requests s2)\<rparr>;
                            s4 = createNotification c (ar_doctorId request)
                                   ''access_request_response'' ''Access Request Approved''
                                   (''Your request to access '' @ u_displayName u @
                                    [CHR 0x27] @ ''s records was approved.'')
                                   [(''requestId'', MStr requestId), (''patientId'', MStr patientId)] s3;
                            s5 = logActivity c patientId Patient ''access_request_approved''
                                   requestId [(''doctorId'', MStr (ar_doctorId request))] s4
                        in (Inr (update' request), s5)
               else
                 let s3 = s\<lparr>access_requests :=
                            AList.map_entry requestId update (access_requests s)\<rparr>;
                     s4 = createNotification c (ar_doctorId request)
                            ''access_request_response'' ''Access Request Denied''
                            (''Your request to access a patient'' @ [CHR 0x27] @ ''s records was denied.'')
                            [(''requestId'', MStr requestId), (''patientId'', MStr patientId)] s3;
                     s5 = logActivity c patientId Patient ''access_request_denied''
                            requestId [(''doctorId'', MStr (ar_doctorId request))] s4
                 in (Inr (update request), s5))"

text \<open>
  \<open>revokeAccess\<close>. The request is written first, the patient's counter second; the
  second write rejects (500) when the patient has no document.
\<close>

definition revokeAccess :: "clock \<Rightarrow> user \<Rightarrow> id \<Rightarrow> db \<Rightarrow> (http_error + unit) \<times> db" where
  "revokeAccess c u requestId s =
     (let patientId = u_uid u in
      case map_of (access_requests s) requestId of
        None \<Rightarrow> (Inl Not_found, s)
      | Some request \<Rightarrow>
          if ar_patientId request \<noteq> patientId then (Inl Forbidden, s)
          else if ar_status request \<noteq> Approved then (Inl Conflict, s)
          else
            let now = ts_now c;
                s1 = s\<lparr>access_requests := AList.map_entry requestId
                        (\<lambda>r. r\<lparr>ar_status := Revoked, ar_revokedAt := Some now,
                               ar_isExpired := True\<rparr>) (access_requests s)\<rparr>
            in (case map_of (patients s1) patientId of
                  None \<Rightarrow> (Inl Internal_error, s1)
                | Some _ \<Rightarrow>
                    let s2 = s1\<lparr>patients := AList.map_entry patientId
                               (\<lambda>p. p\<lparr>pt_activeCollaborators := pt_activeCollaborators p - 1,
                                      pt_updatedAt := now\<rparr>) (patients s1)\<rparr>;
                        s3 = createNotification c (ar_doctorId request) ''access_revoked''
                               ''Access Revoked''
                               ''A patient has revoked your access to their medical records.''
                               [(''requestId'', MStr requestId)] s2
                    in (Inr (), s3)))"

text \<open>
  The expiry sweep, \<open>expireStaleAccessRequests\<close> (the scheduled function
  \<open>expireAccessRequests\<close> has the same body). The inequality filter on \<open>expiresAt\<close>
  matches no document whose \<open>expiresAt\<close> is null. Every document of the snapshot is
  updated through its own reference, in one batch.
\<close>

definition stale :: "timestamp \<Rightarrow> access_request \<Rightarrow> bool" where
  "stale now r =
     (ar_status r = Approved \<and> ar_isExpired r = False \<and>
      (case ar_expiresAt r of None \<Rightarrow> False | Some e \<Rightarrow> e \<le> now))"

definition expireStaleAccessRequests :: "clock \<Rightarrow> db \<Rightarrow> db" where
  "expireStaleAccessRequests c s =
     (let now = ts_now c;
          snap = filter (\<lambda>(_, r). stale now r) (access_requests s)
      in if snap = [] then s
         else s\<lparr>access_requests :=
                 map (\<lambda>(i, r). if stale now r
                                then (i, r\<lparr>ar_status := Expired, ar_isExpired := True\<rparr>)
                                else (i, r))
                   (access_requests s)\<rparr>)"

section \<open>The access checks (records.controller.js)\<close>

text \<open>
  Both helpers throw an error of status 403, which the error handler turns into the
  response. \<open>assertDoctorReadAccess\<close> reads the scope of the first document of its
  query only (\<open>limit(1)\<close>, \<open>docs[0]\<close>).
\<close>

definition assertDoctorReadAccess :: "db \<Rightarrow> id \<Rightarrow> id \<Rightarrow> string \<Rightarrow> http_error + unit" where
  "assertDoctorReadAccess s doctorId patientId recordType =
     (case take 1 (filter (\<lambda>(_, r). ar_doctorId r = doctorId \<and> ar_patientId r = patientId \<and>
                              ar_status r = Approved \<and> ar_isExpired r = False)
                     (access_requests s)) of
        [] \<Rightarrow> Inl Forbidden
      | (_, access) # _ \<Rightarrow>
          if recordType \<noteq> ''all'' \<and>
             ''all'' \<notin> set (ar_requestedRecordTypes access) \<and>
             recordType \<notin> set (ar_requestedRecordTypes access)
          then Inl Forbidden
          else Inr ())"

definition assertDoctorWriteAccess :: "db \<Rightarrow> id \<Rightarrow> id \<Rightarrow> http_error + unit" where
  "assertDoctorWriteAccess s doctorId patientId =
     (case take 1 (filter (\<lambda>(_, r). ar_doctorId r = doctorId \<and> ar_patientId r = patientId \<and>
                              ar_status r = Approved \<and> ar_accessLevel r = Read_write \<and>
                              ar_isExpired r = False)
                     (access_requests s)) of
        [] \<Rightarrow> Inl Forbidden
      | _ # _ \<Rightarrow> Inr ())"

section \<open>The record store (records.controller.js)\<close>

text \<open>
  The upload of the file to the bucket and the signed URL belong to the blob
  collaborator and are left out, with the storage path: a failure of either ends the
  handler before anything is written to Firestore. A batch is applied as a whole or not
  at all; it rejects when one of its \<open>update\<close>s names a document that does not exist.
\<close>

record upload_file =
  f_originalname :: string
  f_size :: int
  f_mimetype :: string

record upload_body =
  ub_title :: string
  ub_recordType :: string
  ub_description :: "string option"
  ub_tags :: "string list option"
  ub_issuedBy :: "string option"
  ub_issuedDate :: "string option"
  ub_commitMessage :: string

definition uploadRecord ::
  "clock \<Rightarrow> user \<Rightarrow> id \<Rightarrow> id \<Rightarrow> id \<Rightarrow> upload_file option \<Rightarrow> upload_body \<Rightarrow> db
     \<Rightarrow> (http_error + med_record \<times> version) \<times> db" where
  "uploadRecord c u recordId versionId commitId file' body s =
     (let patientId = u_uid u in
      case file' of
        None \<Rightarrow> (Inl Bad_request, s)
      | Some file \<Rightarrow>
          let now = ts_now c;
              record =
                \<lparr>rc_id = recordId, rc_patientId = patientId, rc_title = ub_title body,
                 rc_recordType = ub_recordType body,
                 rc_description = or_null (ub_description body),
                 rc_tags = (case ub_tags body of None \<Rightarrow> [] | Some ts \<Rightarrow> ts),
                 rc_issuedBy = or_null (ub_issuedBy body),
                 rc_issuedDate = or_null (ub_issuedDate body),
                 rc_currentVersion = 1, rc_currentVersionId = versionId,
                 rc_totalVersions = 1, rc_isArchived = False, rc_createdAt = now,
                 rc_updatedAt = now, rc_createdBy = patientId\<rparr>;
              version =
                \<lparr>vn_id = versionId, vn_recordId = recordId, vn_patientId = patientId,
                 vn_versionNumber = 1, vn_commitMessage = ub_commitMessage body,
                 vn_committedBy = patientId, vn_committedByRole = Patient,
                 vn_fileName = f_originalname file, vn_fileSize = f_size file,
                 vn_mimeType = f_mimetype file, vn_changeType = Initial_upload,
                 vn_createdAt = now\<rparr>;
              commit =
                \<lparr>cm_id = commitId, cm_recordId = recordId, cm_versionId = versionId,
                 cm_patientId = patientId, cm_committedBy = patientId,
                 cm_committedByRole = Patient, cm_commitMessage = ub_commitMessage body,
                 cm_changeType = Initial_upload, cm_recordType = ub_recordType body,
                 cm_createdAt = now\<rparr>
          in (case map_of (patients s) patientId of
                None \<Rightarrow> (Inl Internal_error, s)
              | Some _ \<Rightarrow>
                  let s1 = s\<lparr>records := AList.update recordId record (records s),
                             record_versions :=
                               AList.update (recordId, versionId) version (record_versions s),
                             commits := AList.update commitId commit (commits s),
                             patients := AList.map_entry patientId
                               (\<lambda>p. p\<lparr>pt_totalRecords := pt_totalRecords p + 1,
                                      pt_totalVersions := pt_totalVersions p + 1,
                                      pt_updatedAt := now\<rparr>) (patients s)\<rparr>;
                      s2 = logActivity c patientId Patient ''record_uploaded'' recordId
                             [(''recordType'', MStr (ub_recordType body)),
                              (''title'', MStr (ub_title body))] s1
                  in (Inr (record, version), s2)))"

definition addRecordVersion ::
  "clock \<Rightarrow> user \<Rightarrow> id \<Rightarrow> id \<Rightarrow> id \<Rightarrow> upload_file option \<Rightarrow> string \<Rightarrow> db
     \<Rightarrow> (http_error + version) \<times> db" where
  "addRecordVersion c u recordId versionId commitId file' commitMessage s =
     (let callerId = u_uid u; callerRole = u_role u in
      case file' of
        None \<Rightarrow> (Inl Bad_request, s)
      | Some file \<Rightarrow>
          (case map_of (records s) recordId of
             None \<Rightarrow> (Inl Not_found, s)
           | Some record \<Rightarrow>
               if callerRole = Patient \<and> rc_patientId record \<noteq> callerId
               then (Inl Forbidden, s)
               else
                 (case (if callerRole = Doctor
                        then assertDoctorWriteAccess s callerId (rc_patientId record)
                        else Inr ()) of
                    Inl e \<Rightarrow> (Inl e, s)
                  | Inr _ \<Rightarrow>
                      let newVersionNumber = rc_currentVersion record + 1;
                          now = ts_now c;
                          version =
                            \<lparr>vn_id = versionId, vn_recordId = recordId,
                             vn_patientId = rc_patientId record,
                             vn_versionNumber = newVersionNumber,
                             vn_commitMessage = commitMessage, vn_committedBy = callerId,
                             vn_committedByRole = callerRole,
                             vn_fileName = f_originalname file, vn_fileSize = f_size file,
                             vn_mimeType = f_mimetype file, vn_changeType = Update,
                             vn_createdAt = now\<rparr>;
                          commit =
                            \<lparr>cm_id = commitId, cm_recordId = recordId,
                             cm_versionId = versionId, cm_patientId = rc_patientId record,
                             cm_committedBy = callerId, cm_committedByRole = callerRole,
                             cm_commitMessage = commitMessage, cm_changeType = Update,
                             cm_recordType = rc_recordType record, cm_createdAt = now\<rparr>
                      in (case map_of (patients s) (rc_patientId record) of
                            None \<Rightarrow> (Inl Internal_error, s)
                          | Some _ \<Rightarrow>
                              let s1 = s\<lparr>records := AList.map_entry recordId
                                           (\<lambda>r. r\<lparr>rc_currentVersion := newVersionNumber,
                                                  rc_currentVersionId := versionId,
                                                  rc_totalVersions := rc_totalVersions r + 1,
                                                  rc_updatedAt := now\<rparr>) (records s),
                                         record_versions :=
                                           AList.update (recordId, versionId) version
                                             (record_versions s),
                                         commits := AList.update commitId commit (commits s),
                                         patients := AList.map_entry (rc_patientId record)
                                           (\<lambda>p. p\<lparr>pt_totalVersions := pt_totalVersions p + 1,
                                                  pt_updatedAt := now\<rparr>) (patients s)\<rparr>;
                                  s2 = (if callerRole = Doctor
                                        then updateDoctorStats c callerId
                                               (no_options\<lparr>so_recordUpdated := True,
                                                  so_patientId := Some (rc_patientId record)\<rparr>)
                                               s1
                                        else s1);
                                  s3 = logActivity c callerId callerRole
                                         ''record_version_added'' recordId
                                         [(''versionNumber'', MNum newVersionNumber),
                                          (''commitMessage'', MStr commitMessage)] s2
                              in (Inr version, s3)))))"

text \<open>
  \<open>addRecordVersion\<close> reads the record and checks the caller, computes the new version
  number from the \<open>currentVersion\<close> it has read, awaits the upload of the file and the
  signed URL, and only then commits its batch; nothing is in a transaction. The batch
  writes \<open>currentVersion\<close> as the number computed from the snapshot, and \<open>totalVersions\<close>
  as an increment of the stored value. The two halves: the reads, which give the file
  and the snapshot of the record, and the batch with what follows it, on the database
  as it is when the batch is committed. The batch rejects when the record or the
  patient has no document by then.
\<close>

definition addRecordVersion_read ::
  "user \<Rightarrow> id \<Rightarrow> upload_file option \<Rightarrow> db \<Rightarrow> http_error + upload_file \<times> med_record" where
  "addRecordVersion_read u recordId file' s =
     (let callerId = u_uid u; callerRole = u_role u in
      case file' of
        None \<Rightarrow> Inl Bad_request
      | Some file \<Rightarrow>
          (case map_of (records s) recordId of
             None \<Rightarrow> Inl Not_found
           | Some record \<Rightarrow>
               if callerRole = Patient \<and> rc_patientId record \<noteq> callerId
               then Inl Forbidden
               else
                 (case (if callerRole = Doctor
                        then assertDoctorWriteAccess s callerId (rc_patientId record)
                        else Inr ()) of
                    Inl e \<Rightarrow> Inl e
                  | Inr _ \<Rightarrow> Inr (file, record))))"

definition addRecordVersion_commit ::
  "clock \<Rightarrow> user \<Rightarrow> id \<Rightarrow> id \<Rightarrow> id \<Rightarrow> upload_file \<Rightarrow> string \<Rightarrow> med_record \<Rightarrow> db
     \<Rightarrow> (http_error + version) \<times> db" where
  "addRecordVersion_commit c u recordId versionId commitId file commitMessage record s =
     (let callerId = u_uid u; callerRole = u_role u;
          newVersionNumber = rc_currentVersion record + 1;
          now = ts_now c;
          version =
            \<lparr>vn_id = versionId, vn_recordId = recordId,
             vn_patientId = rc_patientId record,
             vn_versionNumber = newVersionNumber,
             vn_commitMessage = commitMessage, vn_committedBy = callerId,
             vn_committedByRole = callerRole,
             vn_fileName = f_originalname file, vn_fileSize = f_size file,
             vn_mimeType = f_mimetype file, vn_changeType = Update,
             vn_createdAt = now\<rparr>;
          commit =
            \<lparr>cm_id = commitId, cm_recordId = recordId,
             cm_versionId = versionId, cm_patientId = rc_patientId record,
             cm_committedBy = callerId, cm_committedByRole = callerRole,
             cm_commitMessage = commitMessage, cm_changeType = Update,
             cm_recordType = rc_recordType record, cm_createdAt = now\<rparr>
      in (case map_of (records s) recordId of
            None \<Rightarrow> (Inl Internal_error, s)
          | Some _ \<Rightarrow>
              (case map_of (patients s) (rc_patientId record) of
                 None \<Rightarrow> (Inl Internal_error, s)
               | Some _ \<Rightarrow>
                   let s1 = s\<lparr>records := AList.map_entry recordId
                                (\<lambda>r. r\<lparr>rc_currentVersion := newVersionNumber,
                                       rc_currentVersionId := versionId,
                                       rc_totalVersions := rc_totalVersions r + 1,
                                       rc_updatedAt := now\<rparr>) (records s),
                              record_versions :=
                                AList.update (recordId, versionId) version
                                  (record_versions s),
                              commits := AList.update commitId commit (commits s),
                              patients := AList.map_entry (rc_patientId record)
                                (\<lambda>p. p\<lparr>pt_totalVersions := pt_totalVersions p + 1,
                                       pt_updatedAt := now\<rparr>) (patients s)\<rparr>;
                       s2 = (if callerRole = Doctor
                             then updateDoctorStats c callerId
                                    (no_options\<lparr>so_recordUpdated := True,
                                       so_patientId := Some (rc_patientId record)\<rparr>)
                                    s1
                             else s1);
                       s3 = logActivity c callerId callerRole
                              ''record_version_added'' recordId
                              [(''versionNumber'', MNum newVersionNumber),
                               (''commitMessage'', MStr commitMessage)] s2
                   in (Inr version, s3))))"

text \<open>
  An append whose reads ran on the database \<open>s0\<close> and whose batch is committed on the
  database \<open>s\<close>. With \<open>s0 = s\<close> it is the handler served with no other request in
  between.
\<close>

definition append_from ::
  "db \<Rightarrow> clock \<Rightarrow> user \<Rightarrow> id \<Rightarrow> id \<Rightarrow> id \<Rightarrow> upload_file option \<Rightarrow> string \<Rightarrow> db
     \<Rightarrow> (http_error + version) \<times> db" where
  "append_from s0 c u recordId versionId commitId file' commitMessage s =
     (case addRecordVersion_read u recordId file' s0 of
        Inl e \<Rightarrow> (Inl e, s)
      | Inr (file, record) \<Rightarrow>
          addRecordVersion_commit c u recordId versionId commitId file commitMessage record s)"

text \<open>The version chain of a record, in the order in which the versions were written.\<close>

definition chain :: "db \<Rightarrow> id \<Rightarrow> version list" where
  "chain s recordId = map snd (filter (\<lambda>((r, _), _). r = recordId) (record_versions s))"

section \<open>Doctor discovery, profiles and endorsements (doctors.controller.js)\<close>

text \<open>
  \<open>const { licenseNumber, phone, ...publicData } = data\<close>: every field of the doctor
  document but the two named ones.
\<close>

record public_doctor =
  pd_uid :: id
  pd_displayName :: string
  pd_specialization :: string
  pd_qualifications :: "string list"
  pd_hospitalAffiliations :: "string list"
  pd_yearsOfExperience :: int
  pd_isVerified :: bool
  pd_stats :: doctor_stats
  pd_conditionTags :: "string list"
  pd_contributionGraph :: "(string \<times> int) list"
  pd_endorsementCounts :: "(string \<times> int) list"
  pd_createdAt :: timestamp
  pd_updatedAt :: timestamp

definition publicData :: "doctor \<Rightarrow> public_doctor" where
  "publicData d =
     \<lparr>pd_uid = dr_uid d, pd_displayName = dr_displayName d,
      pd_specialization = dr_specialization d, pd_qualifications = dr_qualifications d,
      pd_hospitalAffiliations = dr_hospitalAffiliations d,
      pd_yearsOfExperience = dr_yearsOfExperience d, pd_isVerified = dr_isVerified d,
      pd_stats = dr_stats d, pd_conditionTags = dr_conditionTags d,
      pd_contributionGraph = dr_contributionGraph d,
      pd_endorsementCounts = dr_endorsementCounts d, pd_createdAt = dr_createdAt d,
      pd_updatedAt = dr_updatedAt d\<rparr>"

text \<open>
  \<open>Array.prototype.sort\<close> with a comparator: a stable sort; the comparator's result is
  kept as its sign, and a NaN counts as 0.
\<close>

fun insert_by :: "('a \<Rightarrow> 'a \<Rightarrow> int) \<Rightarrow> 'a \<Rightarrow> 'a list \<Rightarrow> 'a list" where
  "insert_by cmp x [] = [x]"
| "insert_by cmp x (y # ys) = (if cmp x y \<le> 0 then x # y # ys else y # insert_by cmp x ys)"

definition sort_by :: "('a \<Rightarrow> 'a \<Rightarrow> int) \<Rightarrow> 'a list \<Rightarrow> 'a list" where
  "sort_by cmp xs = foldr (insert_by cmp) xs []"

text \<open>
  \<open>Array.prototype.slice(start, end)\<close> on integers: a negative index counts from the
  end, and both are clamped to the array.
\<close>

definition js_slice :: "int \<Rightarrow> int \<Rightarrow> 'a list \<Rightarrow> 'a list" where
  "js_slice start end' xs =
     (let len = int (length xs);
          k = (if start < 0 then max (len + start) 0 else min start len);
          final = (if end' < 0 then max (len + end') 0 else min end' len)
      in take (nat (final - k)) (drop (nat k) xs))"

text \<open>
  The query string, after \<open>parseInt\<close>: \<open>None\<close> is NaN. A filter is applied when its
  parameter is a non-empty string.
\<close>

record discover_query =
  q_specialization :: "string option"
  q_conditionTag :: "string option"
  q_minCases :: "int option option"
  q_sortBy :: "string option"
  q_limit :: "int option option"
  q_page :: "int option option"

text \<open>
  \<open>stats[sortBy]\<close> as a number; \<open>None\<close> is null or undefined, which \<open>?? 0\<close> turns
  into 0.
\<close>

definition stats_field :: "string \<Rightarrow> doctor_stats \<Rightarrow> rat option" where
  "stats_field sortBy st =
     (if sortBy = ''totalCasesHandled'' then Some (of_int (st_totalCasesHandled st))
      else if sortBy = ''activeCases'' then Some (of_int (st_activeCases st))
      else if sortBy = ''totalRecordsAdded'' then Some (of_int (st_totalRecordsAdded st))
      else if sortBy = ''totalRecordsUpdated'' then Some (of_int (st_totalRecordsUpdated st))
      else if sortBy = ''recordAccuracyScore'' then map_option of_int (st_recordAccuracyScore st)
      else if sortBy = ''lastActiveAt'' then map_option of_int (st_lastActiveAt st)
      else None)"

definition sign_of :: "rat \<Rightarrow> int" where
  "sign_of x = (if x < 0 then - 1 else if x = 0 then 0 else 1)"

definition compare_doctors :: "string \<Rightarrow> public_doctor \<Rightarrow> public_doctor \<Rightarrow> int" where
  "compare_doctors sortBy a b =
     (if sortBy = ''averageResponseTimeHours'' then
        (case (st_averageResponseTimeHours (pd_stats a), st_averageResponseTimeHours (pd_stats b)) of
           (None, None) \<Rightarrow> 0
         | (None, Some _) \<Rightarrow> 1
         | (Some _, None) \<Rightarrow> - 1
         | (Some aVal, Some bVal) \<Rightarrow> sign_of (aVal - bVal))
      else
        (let aVal = (case stats_field sortBy (pd_stats a) of None \<Rightarrow> 0 | Some v \<Rightarrow> v);
             bVal = (case stats_field sortBy (pd_stats b) of None \<Rightarrow> 0 | Some v \<Rightarrow> v)
         in sign_of (bVal - aVal)))"

record pagination =
  pg_total :: int
  pg_page :: "int option"
  pg_limit :: "int option"
  pg_totalPages :: "int option"

definition discoverDoctors :: "discover_query \<Rightarrow> db \<Rightarrow> public_doctor list \<times> pagination" where
  "discoverDoctors q s =
     (let sortBy = (case q_sortBy q of None \<Rightarrow> ''totalCasesHandled'' | Some b \<Rightarrow> b);
          limitParam = (case q_limit q of None \<Rightarrow> Some 20 | Some l \<Rightarrow> l);
          page = (case q_page q of None \<Rightarrow> Some 1 | Some g \<Rightarrow> g);
          pageLimit = map_option (\<lambda>l. min l 50) limitParam;
          offset = (case (page, pageLimit) of
                      (Some g, Some l) \<Rightarrow> Some ((g - 1) * l) | _ \<Rightarrow> None);
          query0 = filter (\<lambda>(_, d). dr_isVerified d) (doctors s);
          query1 = (case q_specialization q of
                      None \<Rightarrow> query0
                    | Some sp \<Rightarrow> if sp = [] then query0
                               else filter (\<lambda>(_, d). dr_specialization d = sp) query0);
          query2 = (case q_conditionTag q of
                      None \<Rightarrow> query1
                    | Some tag \<Rightarrow> if tag = [] then query1
                                else filter (\<lambda>(_, d). tag \<in> set (dr_conditionTags d)) query1);
          doctors0 = map (\<lambda>(_, d). publicData d) query2;
          doctors1 = (case q_minCases q of
                        None \<Rightarrow> doctors0
                      | Some None \<Rightarrow> []
                      | Some (Some n) \<Rightarrow>
                          filter (\<lambda>d. st_totalCasesHandled (pd_stats d) \<ge> n) doctors0);
          doctors2 = sort_by (compare_doctors sortBy) doctors1;
          total = int (length doctors2);
          paginated = (case (offset, pageLimit) of
                         (Some off, Some l) \<Rightarrow> js_slice off (off + l) doctors2
                       | _ \<Rightarrow> [])
      in (paginated,
          \<lparr>pg_total = total, pg_page = page, pg_limit = pageLimit,
           pg_totalPages =
             (case pageLimit of
                None \<Rightarrow> None
              | Some l \<Rightarrow> if l = 0 then None
                         else Some \<lceil>(of_int total :: rat) / of_int l\<rceil>)\<rparr>))"

record public_endorsement =
  pe_id :: id
  pe_skill :: string
  pe_note :: "string option"
  pe_endorserName :: string
  pe_createdAt :: timestamp

record doctor_profile_response =
  rs_doctor :: public_doctor
  rs_endorsements :: "public_endorsement list"
  rs_contributionGraph :: "(string \<times> int) list"
  rs_conditionTags :: "string list"

definition getDoctorProfile :: "id \<Rightarrow> db \<Rightarrow> http_error + doctor_profile_response" where
  "getDoctorProfile doctorId s =
     (case map_of (doctors s) doctorId of
        None \<Rightarrow> Inl Not_found
      | Some doctor \<Rightarrow>
          let endorsementsSnap =
                take 20 (sort_by (\<lambda>a b. sign_of (of_int (en_createdAt b - en_createdAt a)))
                  (map snd (filter (\<lambda>(_, e). en_targetDoctorId e = doctorId)
                     (endorsements s))));
              endorsements' =
                map (\<lambda>e. \<lparr>pe_id = en_id e, pe_skill = en_skill e, pe_note = en_note e,
                           pe_endorserName = en_endorserName e,
                           pe_createdAt = en_createdAt e\<rparr>) endorsementsSnap
          in Inr \<lparr>rs_doctor = publicData doctor, rs_endorsements = endorsements',
                  rs_contributionGraph = dr_contributionGraph doctor,
                  rs_conditionTags = dr_conditionTags doctor\<rparr>)"

text \<open>
  \<open>endorseDoctor\<close>. The count is kept under the field path
  \<open>endorsementCounts.<skill>\<close>, a string that \<open>batch.update\<close> parses: it throws, before
  anything is written, when the path has two dots in a row, ends with a dot, or holds
  one of the characters \<open>* ~ / [ ]\<close>, and the handler answers 500. For a label without
  a dot the path is the entry of the map under the label, and the model keys the map by
  the label; a label with a dot inside addresses a nested map, which the model does not
  have.
\<close>

fun double_dot :: "string \<Rightarrow> bool" where
  "double_dot (a # b # cs) = ((a = CHR ''.'' \<and> b = CHR ''.'') \<or> double_dot (b # cs))"
| "double_dot _ = False"

definition field_path_ok :: "string \<Rightarrow> bool" where
  "field_path_ok path =
     (\<not> double_dot path \<and> path \<noteq> [] \<and> hd path \<noteq> CHR ''.'' \<and> last path \<noteq> CHR ''.'' \<and>
      list_all (\<lambda>ch. ch \<notin> set ''*~/[]'') path)"

definition endorseDoctor ::
  "clock \<Rightarrow> user \<Rightarrow> id \<Rightarrow> id \<Rightarrow> string \<Rightarrow> string option \<Rightarrow> db
     \<Rightarrow> (http_error + endorsement) \<times> db" where
  "endorseDoctor c u endorsementId targetDoctorId skill note s =
     (let endorserId = u_uid u in
      if endorserId = targetDoctorId then (Inl Bad_request, s)
      else
        (case map_of (doctors s) targetDoctorId of
           None \<Rightarrow> (Inl Not_found, s)
         | Some targetDoc \<Rightarrow>
             if \<not> dr_isVerified targetDoc then (Inl Bad_request, s)
             else if take 1 (filter (\<lambda>(_, e). en_endorserId e = endorserId \<and>
                                        en_targetDoctorId e = targetDoctorId \<and>
                                        en_skill e = skill) (endorsements s)) \<noteq> []
             then (Inl Conflict, s)
             else if \<not> field_path_ok (''endorsementCounts.'' @ skill)
             then (Inl Internal_error, s)
             else
               let now = ts_now c;
                   endorsement =
                     \<lparr>en_id = endorsementId, en_endorserId = endorserId,
                      en_endorserName = u_displayName u, en_targetDoctorId = targetDoctorId,
                      en_skill = skill, en_note = or_null note, en_createdAt = now\<rparr>;
                   s1 = s\<lparr>endorsements :=
                           AList.update endorsementId endorsement (endorsements s),
                          doctors := AList.map_entry targetDoctorId
                            (\<lambda>d. d\<lparr>dr_endorsementCounts :=
                                     increment_entry skill 1 (dr_endorsementCounts d),
                                   dr_updatedAt := now\<rparr>) (doctors s)\<rparr>
               in (Inr endorsement, s1)))"

section \<open>Accuracy score and response time (doctor-stats.service.js, functions/index.js)\<close>

text \<open>
  \<open>Math.min(100, Math.round((totalEndorsements / totalCases) * 50 + 50))\<close>, for a
  divisor that is not 0.
\<close>

definition accuracy_score :: "int \<Rightarrow> int \<Rightarrow> int" where
  "accuracy_score totalEndorsements totalCases =
     min 100 (math_round ((of_int totalEndorsements / of_int totalCases) * 50 + 50))"

text \<open>The service's helper: \<open>stats?.totalCasesHandled || 0\<close>, and no write when it is 0.\<close>

definition recalculateDoctorAccuracyScore :: "id \<Rightarrow> db \<Rightarrow> db" where
  "recalculateDoctorAccuracyScore doctorId s =
     (case map_of (doctors s) doctorId of
        None \<Rightarrow> s
      | Some doc \<Rightarrow>
          let totalEndorsements = sum_list (map snd (dr_endorsementCounts doc));
              totalCases = st_totalCasesHandled (dr_stats doc)
          in if totalCases = 0 then s
             else s\<lparr>doctors := AList.map_entry doctorId
                      (\<lambda>d. d\<lparr>dr_stats := (dr_stats d)\<lparr>st_recordAccuracyScore :=
                               Some (accuracy_score totalEndorsements totalCases)\<rparr>\<rparr>)
                      (doctors s)\<rparr>)"

text \<open>
  The Firestore trigger on the creation of an endorsement document:
  \<open>stats?.totalCasesHandled || 1\<close>, and the score is always written.
\<close>

definition onEndorsementCreated :: "endorsement \<Rightarrow> db \<Rightarrow> db" where
  "onEndorsementCreated endorsement s =
     (case map_of (doctors s) (en_targetDoctorId endorsement) of
        None \<Rightarrow> s
      | Some doc \<Rightarrow>
          let totalEndorsements = sum_list (map snd (dr_endorsementCounts doc));
              totalCases = (if st_totalCasesHandled (dr_stats doc) = 0 then 1
                            else st_totalCasesHandled (dr_stats doc))
          in s\<lparr>doctors := AList.map_entry (en_targetDoctorId endorsement)
                  (\<lambda>d. d\<lparr>dr_stats := (dr_stats d)\<lparr>st_recordAccuracyScore :=
                           Some (accuracy_score totalEndorsements totalCases)\<rparr>\<rparr>)
                  (doctors s)\<rparr>)"

text \<open>
  The Firestore trigger \<open>onAccessRequestResponded\<close>. It is registered with
  \<open>onDocumentCreated\<close>, so it runs once for every access request, on the document as
  it was created.
\<close>

definition onAccessRequestResponded :: "access_request \<Rightarrow> db \<Rightarrow> db" where
  "onAccessRequestResponded request s =
     (if ar_status request \<noteq> Approved then s
      else
        (case ar_respondedAt request of
           None \<Rightarrow> s
         | Some respondedAt \<Rightarrow>
             let responseTimeHours =
                   (of_int (respondedAt - ar_requestedAt request) :: rat) / (1000 * 60 * 60)
             in (case map_of (doctors s) (ar_doctorId request) of
                   None \<Rightarrow> s
                 | Some doc \<Rightarrow>
                     let currentAvg = st_averageResponseTimeHours (dr_stats doc);
                         totalCases = (if st_totalCasesHandled (dr_stats doc) = 0 then 1
                                       else st_totalCasesHandled (dr_stats doc));
                         newAvg =
                           (case currentAvg of
                              None \<Rightarrow> responseTimeHours
                            | Some a \<Rightarrow>
                                (a * (of_int totalCases - 1) + responseTimeHours)
                                  / of_int totalCases)
                     in s\<lparr>doctors := AList.map_entry (ar_doctorId request)
                             (\<lambda>d. d\<lparr>dr_stats := (dr_stats d)\<lparr>st_averageResponseTimeHours :=
                                      Some (toFixed2 newAvg)\<rparr>\<rparr>)
                             (doctors s)\<rparr>)))"

section \<open>Registration (auth.controller.js)\<close>

definition registerPatient ::
  "clock \<Rightarrow> id \<Rightarrow> string \<Rightarrow> string option \<Rightarrow> db \<Rightarrow> (http_error + patient) \<times> db" where
  "registerPatient c uid displayName phone s =
     (case map_of (users s) uid of
        Some _ \<Rightarrow> (Inl Conflict, s)
      | None \<Rightarrow>
          let now = ts_now c;
              userProfile =
                \<lparr>up_role = Patient, up_displayName = displayName, up_phone = or_null phone,
                 up_isVerified = False, up_createdAt = now, up_updatedAt = now\<rparr>;
              patientProfile =
                \<lparr>pt_displayName = displayName, pt_phone = or_null phone,
                 pt_totalRecords = 0, pt_totalVersions = 0, pt_activeCollaborators = 0,
                 pt_createdAt = now, pt_updatedAt = now\<rparr>
          in (Inr patientProfile,
              s\<lparr>users := AList.update uid userProfile (users s),
                patients := AList.update uid patientProfile (patients s)\<rparr>))"

record register_doctor_body =
  rd_displayName :: string
  rd_specialization :: string
  rd_qualifications :: "string list"
  rd_licenseNumber :: string
  rd_hospitalAffiliations :: "string list option"
  rd_phone :: "string option"
  rd_yearsOfExperience :: "int option"

definition registerDoctor ::
  "clock \<Rightarrow> id \<Rightarrow> register_doctor_body \<Rightarrow> db \<Rightarrow> (http_error + doctor) \<times> db" where
  "registerDoctor c uid body s =
     (case map_of (users s) uid of
        Some _ \<Rightarrow> (Inl Conflict, s)
      | None \<Rightarrow>
          let now = ts_now c;
              userProfile =
                \<lparr>up_role = Doctor, up_displayName = rd_displayName body,
                 up_phone = or_null (rd_phone body), up_isVerified = False,
                 up_createdAt = now, up_updatedAt = now\<rparr>;
              doctorProfile =
                \<lparr>dr_uid = uid, dr_displayName = rd_displayName body,
                 dr_specialization = rd_specialization body,
                 dr_qualifications = rd_qualifications body,
                 dr_licenseNumber = rd_licenseNumber body,
                 dr_hospitalAffiliations =
                   (case rd_hospitalAffiliations body of None \<Rightarrow> [] | Some hs \<Rightarrow> hs),
                 dr_phone = or_null (rd_phone body),
                 dr_yearsOfExperience =
                   (case rd_yearsOfExperience body of None \<Rightarrow> 0 | Some y \<Rightarrow> y),
                 dr_isVerified = False,
                 dr_stats =
                   \<lparr>st_totalCasesHandled = 0, st_activeCases = 0, st_totalRecordsAdded = 0,
                    st_totalRecordsUpdated = 0, st_averageResponseTimeHours = None,
                    st_recordAccuracyScore = None, st_lastActiveAt = None\<rparr>,
                 dr_conditionTags = [], dr_contributionGraph = [],
                 dr_endorsementCounts = [], dr_createdAt = now, dr_updatedAt = now\<rparr>
          in (Inr doctorProfile,
              s\<lparr>users := AList.update uid userProfile (users s),
                doctors := AList.update uid doctorProfile (doctors s)\<rparr>))"

section \<open>The system as a transition relation\<close>

text \<open>
  Modelled from the README, which says that doctors must be verified by an administrator
  before they reach any record; no handler of the repository does it. The verification
  sets the flag on the user document and on the doctor document.
\<close>

definition verifyDoctor :: "id \<Rightarrow> db \<Rightarrow> db" where
  "verifyDoctor uid s =
     s\<lparr>users := AList.map_entry uid (\<lambda>p. p\<lparr>up_isVerified := True\<rparr>) (users s),
       doctors := AList.map_entry uid (\<lambda>d. d\<lparr>dr_isVerified := True\<rparr>) (doctors s)\<rparr>"

text \<open>
  One step of the system when the calls are served one after another: a handler, a
  scheduled job or a trigger runs from its first read to its last write with no other
  call in between. Nothing in the code enforces that order (no handler uses a
  transaction); the relation \<open>interleaved\<close> below lets the two handlers that write
  from an earlier read overlap with other calls.
  The caller, the request and the clock are arbitrary. \<open>uuidv4()\<close> is taken to return
  an id that no document of the collection it is used for has yet: the record id of an
  upload and the version id of a new version are fresh. The triggers run on an
  arbitrary snapshot. The handlers of the notification inbox (\<open>markAsRead\<close>,
  \<open>markAllAsRead\<close>) write nothing but notifications, and the last rule lets them
  write any; the remaining handlers only read.
\<close>

inductive step :: "db \<Rightarrow> db \<Rightarrow> bool" where
  step_registerPatient:
    "step s (snd (registerPatient c uid displayName phone s))"
| step_registerDoctor:
    "step s (snd (registerDoctor c uid rbody s))"
| step_verifyDoctor:
    "step s (verifyDoctor uid s)"
| step_createAccessRequest:
    "step s (snd (createAccessRequest c u requestId body s))"
| step_respondToAccessRequest:
    "step s (snd (respondToAccessRequest c u requestId approved note s))"
| step_revokeAccess:
    "step s (snd (revokeAccess c u requestId s))"
| step_expireStaleAccessRequests:
    "step s (expireStaleAccessRequests c s)"
| step_uploadRecord:
    "recordId \<notin> fst ` set (records s) \<Longrightarrow>
     step s (snd (uploadRecord c u recordId versionId commitId file' ubody s))"
| step_addRecordVersion:
    "(recordId, versionId) \<notin> fst ` set (record_versions s) \<Longrightarrow>
     step s (snd (addRecordVersion c u recordId versionId commitId file' commitMessage s))"
| step_endorseDoctor:
    "step s (snd (endorseDoctor c u endorsementId targetDoctorId skill note s))"
| step_updateDoctorStats:
    "step s (updateDoctorStats c doctorId options s)"
| step_recalculateDoctorAccuracyScore:
    "step s (recalculateDoctorAccuracyScore doctorId s)"
| step_onEndorsementCreated:
    "step s (onEndorsementCreated endorsement s)"
| step_onAccessRequestResponded:
    "step s (onAccessRequestResponded request s)"
| step_notifications:
    "step s (s\<lparr>notifications := inbox\<rparr>)"

inductive reachable :: "db \<Rightarrow> bool" where
  reachable_init: "reachable empty_db"
| reachable_step: "reachable s \<Longrightarrow> step s s' \<Longrightarrow> reachable s'"

section \<open>Calls that overlap\<close>

text \<open>
  A call of \<open>createAccessRequest\<close> or \<open>addRecordVersion\<close> that has done its reads and
  not yet its writes. An append holds what it has computed before it awaits the upload
  of the file: the clock value, the id of the new version and the snapshot of the
  record.
\<close>

datatype in_flight =
    Creating user access_request_body
  | Appending clock user id id upload_file string med_record

text \<open>
  A configuration is the database with the calls in flight. A step is a whole call as
  in \<open>step\<close>, the reads of a call, which put it in flight when they pass, or the writes
  of a call in flight, on the database as it is by then. \<open>uuidv4()\<close> returns an id that
  no document of the collection has.
\<close>

inductive interleaved :: "db \<times> in_flight list \<Rightarrow> db \<times> in_flight list \<Rightarrow> bool" where
  whole_call:
    "step s s' \<Longrightarrow> interleaved (s, pool) (s', pool)"
| create_read:
    "createAccessRequest_read u body s = Inr () \<Longrightarrow>
     interleaved (s, pool) (s, Creating u body # pool)"
| create_write:
    "requestId \<notin> fst ` set (access_requests s) \<Longrightarrow>
     interleaved (s, before @ Creating u body # after)
       (snd (createAccessRequest_write c u requestId body s), before @ after)"
| append_read:
    "addRecordVersion_read u recordId file' s = Inr (fl, snapshot) \<Longrightarrow>
     (recordId, versionId) \<notin> fst ` set (record_versions s) \<Longrightarrow>
     interleaved (s, pool)
       (s, Appending c u recordId versionId fl commitMessage snapshot # pool)"
| append_commit:
    "(recordId, versionId) \<notin> fst ` set (record_versions s) \<Longrightarrow>
     interleaved (s, before @ Appending c u recordId versionId fl commitMessage snapshot # after)
       (snd (addRecordVersion_commit c u recordId versionId commitId fl commitMessage snapshot s),
        before @ after)"

text \<open>The configurations that the system gets to from the empty database.\<close>

inductive execution :: "db \<times> in_flight list \<Rightarrow> bool" where
  execution_init: "execution (empty_db, [])"
| execution_step: "execution k \<Longrightarrow> interleaved k k' \<Longrightarrow> execution k'"

section \<open>Invariants of the access-request collection\<close>

text \<open>
  At most one request of a pair is pending or approved. Calls served one after another
  keep it so; two calls of \<open>createAccessRequest\<close> that overlap do not.
\<close>

definition at_most_one_active :: "db \<Rightarrow> bool" where
  "at_most_one_active s =
     (\<forall>doctorId patientId.
        length (filter (\<lambda>(_, r). overlapping doctorId patientId r) (access_requests s)) \<le> 1)"

text \<open>
  Well-formedness of the requests: ids are unique, the patient of a request has a
  document, a pending or approved request does not carry the \<open>isExpired\<close> flag, and an
  approved request has an expiry instant.
\<close>

definition requests_wf :: "db \<Rightarrow> bool" where
  "requests_wf s =
     (distinct (map fst (access_requests s)) \<and>
      list_all (\<lambda>(_, r). ar_patientId r \<in> fst ` set (patients s) \<and>
                         (ar_status r = Pending \<or> ar_status r = Approved \<longrightarrow> \<not> ar_isExpired r) \<and>
                         (ar_status r = Approved \<longrightarrow> ar_expiresAt r \<noteq> None))
        (access_requests s))"

section \<open>Invariant of the record store\<close>

text \<open>
  Every version belongs to a record, and for every record the version numbers of its
  chain, in the order of writing, are 1, 2, ..., current version; the total count is
  the current version too. Calls served one after another keep it so; two calls of
  \<open>addRecordVersion\<close> that overlap do not.
\<close>

definition versions_wf :: "db \<Rightarrow> bool" where
  "versions_wf s =
     (list_all (\<lambda>((r, _), _). r \<in> fst ` set (records s)) (record_versions s) \<and>
      (\<forall>recordId record. map_of (records s) recordId = Some record \<longrightarrow>
         map vn_versionNumber (chain s recordId) = [1 .. rc_currentVersion record] \<and>
         rc_totalVersions record = rc_currentVersion record \<and>
         1 \<le> rc_currentVersion record))"

definition req_inv :: "db \<Rightarrow> bool" where
  "req_inv s = (requests_wf s \<and> at_most_one_active s)"

text \<open>What the sweep at time \<open>now\<close> does to one request.\<close>

definition expire :: "timestamp \<Rightarrow> access_request \<Rightarrow> access_request" where
  "expire now r = (if stale now r then r\<lparr>ar_status := Expired, ar_isExpired := True\<rparr> else r)"

section \<open>The access check as one operation\<close>

text \<open>
  The handlers that read call \<open>assertDoctorReadAccess\<close> with the record type (or with
  \<open>'all'\<close> for a listing); \<open>addRecordVersion\<close>, the only handler that writes for a
  doctor, calls \<open>assertDoctorWriteAccess\<close>, which takes no record type.
\<close>

datatype mode = Read_mode | Write_mode

definition access_check :: "db \<Rightarrow> id \<Rightarrow> id \<Rightarrow> string \<Rightarrow> mode \<Rightarrow> http_error + unit" where
  "access_check s doctorId patientId recordType m =
     (case m of
        Read_mode \<Rightarrow> assertDoctorReadAccess s doctorId patientId recordType
      | Write_mode \<Rightarrow> assertDoctorWriteAccess s doctorId patientId)"

text \<open>
  The specification's \<open>isAuthorized\<close>, in the words of the specification: a grant
  covers a record type when it contains \<open>'all'\<close> or the type itself (so a requested
  \<open>'all'\<close> needs a grant with \<open>'all'\<close>); an authorizing request is approved, not
  expired at the time of the check, covers the type, and for a write has the level
  \<open>read_write\<close>.
\<close>

definition spec_covers :: "string list \<Rightarrow> string \<Rightarrow> bool" where
  "spec_covers scope recordType = (''all'' \<in> set scope \<or> recordType \<in> set scope)"


section \<open>The events of the contribution aggregator\<close>

text \<open>
  The specification's event handlers are calls of \<open>updateDoctorStats\<close> with one
  option set.
\<close>

definition onNewCaseApproved :: "clock \<Rightarrow> id \<Rightarrow> db \<Rightarrow> db" where
  "onNewCaseApproved c doctorId s =
     updateDoctorStats c doctorId (no_options\<lparr>so_newCase := True\<rparr>) s"

definition onCaseCompleted :: "clock \<Rightarrow> id \<Rightarrow> db \<Rightarrow> db" where
  "onCaseCompleted c doctorId s =
     updateDoctorStats c doctorId (no_options\<lparr>so_caseCompleted := True\<rparr>) s"

definition onResponseRecorded :: "clock \<Rightarrow> id \<Rightarrow> rat \<Rightarrow> db \<Rightarrow> db" where
  "onResponseRecorded c doctorId responseTimeHours s =
     updateDoctorStats c doctorId
       (no_options\<lparr>so_responseTimeHours := Some responseTimeHours\<rparr>) s"

section \<open>Doctor documents that differ in the sensitive fields only\<close>

definition same_but_sensitive :: "doctor \<Rightarrow> doctor \<Rightarrow> bool" where
  "same_but_sensitive d d' =
     (d' = d\<lparr>dr_licenseNumber := dr_licenseNumber d', dr_phone := dr_phone d'\<rparr>)"

text \<open>
  Two databases that hold the same documents under the same ids, but for the license
  number and the phone of the doctors.
\<close>

definition same_public :: "db \<Rightarrow> db \<Rightarrow> bool" where
  "same_public s s' =
     (list_all2 (\<lambda>x y. fst x = fst y \<and> same_but_sensitive (snd x) (snd y))
        (doctors s) (doctors s') \<and>
      endorsements s' = endorsements s)"

text \<open>The documents that the query of \<open>discoverDoctors\<close> returns.\<close>

definition found :: "discover_query \<Rightarrow> doctor collection \<Rightarrow> doctor collection" where
  "found q ds =
     (let query0 = filter (\<lambda>(_, d). dr_isVerified d) ds;
          query1 = (case q_specialization q of
                      None \<Rightarrow> query0
                    | Some sp \<Rightarrow> if sp = [] then query0
                               else filter (\<lambda>(_, d). dr_specialization d = sp) query0)
      in (case q_conditionTag q of
            None \<Rightarrow> query1
          | Some tag \<Rightarrow> if tag = [] then query1
                      else filter (\<lambda>(_, d). tag \<in> set (dr_conditionTags d)) query1))"

section \<open>A small hospital\<close>

text \<open>
  Concrete states for the examples: a patient and a doctor register, the doctor asks for
  read access to the lab reports for 30 days, and the patient approves one second later.
\<close>

definition clock0 :: clock where
  "clock0 = \<lparr>ts_now = 1000, date_now = 1000, today_key = ''2024-01-01''\<rparr>"

definition clock1 :: clock where
  "clock1 = \<lparr>ts_now = 2000, date_now = 2000, today_key = ''2024-01-01''\<rparr>"

definition doctor_user :: user where
  "doctor_user =
     \<lparr>u_uid = ''d1'', u_role = Doctor, u_displayName = ''Dora'', u_isVerified = True\<rparr>"

definition patient_user :: user where
  "patient_user =
     \<lparr>u_uid = ''p1'', u_role = Patient, u_displayName = ''Pat'', u_isVerified = False\<rparr>"

definition lab_request :: access_request_body where
  "lab_request =
     \<lparr>b_patientId = ''p1'', b_reason = ''follow-up of the lab results'',
      b_accessLevel = Some Read, b_requestedRecordTypes = [''lab_report''],
      b_expiryDays = Some 30\<rparr>"

definition doctor_body :: register_doctor_body where
  "doctor_body =
     \<lparr>rd_displayName = ''Dora'', rd_specialization = ''cardiology'',
      rd_qualifications = [''MD''], rd_licenseNumber = ''L-1234'',
      rd_hospitalAffiliations = None, rd_phone = None, rd_yearsOfExperience = None\<rparr>"

definition s_registered :: db where
  "s_registered =
     verifyDoctor ''d1''
       (snd (registerDoctor clock0 ''d1'' doctor_body
          (snd (registerPatient clock0 ''p1'' ''Pat'' None empty_db))))"

definition s_requested :: db where
  "s_requested = snd (createAccessRequest clock0 doctor_user ''r1'' lab_request s_registered)"

definition s_approved :: db where
  "s_approved = snd (respondToAccessRequest clock1 patient_user ''r1'' True None s_requested)"

definition pending_r1 :: access_request where
  "pending_r1 =
     \<lparr>ar_id = ''r1'', ar_doctorId = ''d1'', ar_doctorName = ''Dora'', ar_patientId = ''p1'',
      ar_reason = ''follow-up of the lab results'', ar_accessLevel = Read,
      ar_requestedRecordTypes = [''lab_report''], ar_expiryDays = 30, ar_status = Pending,
      ar_isExpired = False, ar_requestedAt = 1000, ar_respondedAt = None,
      ar_expiresAt = None, ar_note = None, ar_revokedAt = None\<rparr>"

definition approved_r1 :: access_request where
  "approved_r1 =
     pending_r1\<lparr>ar_status := Approved, ar_respondedAt := Some 2000,
                ar_expiresAt := Some 2592002000\<rparr>"


text \<open>The same story with a request for read and write access to the lab reports.\<close>

definition rw_request :: access_request_body where
  "rw_request = lab_request\<lparr>b_accessLevel := Some Read_write\<rparr>"

definition s_rw_approved :: db where
  "s_rw_approved =
     snd (respondToAccessRequest clock1 patient_user ''r1'' True None
       (snd (createAccessRequest clock0 doctor_user ''r1'' rw_request s_registered)))"

section \<open>Two approvals, and an endorsement\<close>

text \<open>
  The handler followed by the trigger that the creation of the request document fires.
\<close>

definition request_and_trigger ::
  "clock \<Rightarrow> user \<Rightarrow> id \<Rightarrow> access_request_body \<Rightarrow> db \<Rightarrow> db" where
  "request_and_trigger c u requestId body s =
     (case createAccessRequest c u requestId body s of
        (Inl _, s') \<Rightarrow> s'
      | (Inr request, s') \<Rightarrow> onAccessRequestResponded request s')"

text \<open>
  A doctor and two patients. The doctor asks the first patient at hour 0 and is approved
  at hour 10; asks the second patient at hour 10 and is approved at hour 30.
\<close>

definition hour :: "int \<Rightarrow> clock" where
  "hour h = \<lparr>ts_now = h * 3600000, date_now = h * 3600000, today_key = ''2024-01-01''\<rparr>"

definition second_patient :: user where
  "second_patient =
     \<lparr>u_uid = ''p2'', u_role = Patient, u_displayName = ''Quinn'', u_isVerified = False\<rparr>"

definition s_two_patients :: db where
  "s_two_patients =
     verifyDoctor ''d1''
       (snd (registerDoctor (hour 0) ''d1'' doctor_body
          (snd (registerPatient (hour 0) ''p2'' ''Quinn'' None
             (snd (registerPatient (hour 0) ''p1'' ''Pat'' None empty_db))))))"

definition s_two_approvals :: db where
  "s_two_approvals =
     snd (respondToAccessRequest (hour 30) second_patient ''r2'' True None
       (request_and_trigger (hour 10) doctor_user ''r2'' (lab_request\<lparr>b_patientId := ''p2''\<rparr>)
          (snd (respondToAccessRequest (hour 10) patient_user ''r1'' True None
             (request_and_trigger (hour 0) doctor_user ''r1'' lab_request s_two_patients)))))"

text \<open>
  The same events as the aggregator's handlers: a new case and its response time of 10
  hours, then a new case and its response time of 20 hours.
\<close>

definition s_two_samples :: db where
  "s_two_samples =
     onResponseRecorded (hour 30) ''d1'' 20
       (onNewCaseApproved (hour 30) ''d1''
          (onResponseRecorded (hour 10) ''d1'' 10
             (onNewCaseApproved (hour 10) ''d1'' s_two_patients)))"

text \<open>
  A second doctor endorses the first, who has handled no case yet, and the trigger on
  the new endorsement document runs.
\<close>

definition endorser :: user where
  "endorser =
     \<lparr>u_uid = ''d2'', u_role = Doctor, u_displayName = ''Eli'', u_isVerified = True\<rparr>"

definition s_endorsed :: db where
  "s_endorsed =
     (case endorseDoctor clock1 endorser ''e1'' ''d1'' ''ECG'' None s_registered of
        (Inl _, s') \<Rightarrow> s'
      | (Inr endorsement, s') \<Rightarrow> onEndorsementCreated endorsement s')"

section \<open>A record with two versions\<close>

definition scan :: upload_file where
  "scan = \<lparr>f_originalname = ''scan.pdf'', f_size = 1024, f_mimetype = ''application/pdf''\<rparr>"

definition lab_upload :: upload_body where
  "lab_upload =
     \<lparr>ub_title = ''Blood panel'', ub_recordType = ''lab_report'', ub_description = None,
      ub_tags = None, ub_issuedBy = None, ub_issuedDate = None,
      ub_commitMessage = ''first upload''\<rparr>"

definition s_uploaded :: db where
  "s_uploaded =
     snd (uploadRecord clock0 patient_user ''rec1'' ''v1'' ''c1'' (Some scan) lab_upload
            s_registered)"

definition s_versioned :: db where
  "s_versioned =
     snd (addRecordVersion clock1 patient_user ''rec1'' ''v2'' ''c2'' (Some scan)
            ''second scan'' s_uploaded)"

section \<open>Two requests, and two appends, that overlap\<close>

text \<open>
  The doctor's client sends the request for access twice. Both calls run their reads on
  the database in which no request exists, and then both write.
\<close>

definition s_two_requests :: db where
  "s_two_requests =
     snd (createAccessRequest_write clock1 doctor_user ''r2'' lab_request
       (snd (createAccessRequest_write clock0 doctor_user ''r1'' lab_request s_registered)))"

text \<open>
  The patient sends two new versions of the record at once. Both calls read the record
  at version 1, and then both commit.
\<close>

definition s_two_appends :: db where
  "s_two_appends =
     snd (append_from s_uploaded clock1 patient_user ''rec1'' ''v3'' ''c3'' (Some scan)
            ''third scan''
       (snd (append_from s_uploaded clock1 patient_user ''rec1'' ''v2'' ''c2'' (Some scan)
               ''second scan'' s_uploaded)))"

text \<open>
  An append reads the record at version 1 and is slow to upload its file; two more
  appends are served meanwhile, one after the other, and then the slow one commits.
\<close>

definition s_three_versions :: db where
  "s_three_versions =
     snd (addRecordVersion clock1 patient_user ''rec1'' ''v3'' ''c3'' (Some scan)
            ''third scan'' s_versioned)"

definition s_late_commit :: db where
  "s_late_commit =
     snd (append_from s_uploaded clock0 patient_user ''rec1'' ''v4'' ''c4'' (Some scan)
            ''slow scan'' s_three_versions)"

section \<open>The same hospital with another license number and phone\<close>

definition s_other_license :: db where
  "s_other_license =
     s_registered\<lparr>doctors :=
       map (\<lambda>(i, d). (i, d\<lparr>dr_licenseNumber := ''L-9999'', dr_phone := Some ''+15550100''\<rparr>))
         (doctors s_registered)\<rparr>"

definition all_doctors :: discover_query where
  "all_doctors =
     \<lparr>q_specialization = None, q_conditionTag = None, q_minCases = None, q_sortBy = None,
      q_limit = None, q_page = None\<rparr>"

section \<open>Collections: counting and updating\<close>


lemma length_filter_update_le:
  "length (filter P (AList.update k v al)) \<le> length (filter P al) + (if P (k, v) then 1 else 0)"
  by (induction al) auto

lemma length_filter_map_entry_le:
  "map_of al k = Some v \<Longrightarrow> (P (k, f v) \<Longrightarrow> P (k, v)) \<Longrightarrow>
   length (filter P (AList.map_entry k f al)) \<le> length (filter P al)"
  by (induction al) (auto split: if_splits)

lemma length_filter_map_le:
  "(\<And>x. x \<in> set al \<Longrightarrow> P (g x) \<Longrightarrow> P x) \<Longrightarrow>
   length (filter P (map g al)) \<le> length (filter P al)"
  by (induction al) auto

lemma list_all_update:
  "list_all P al \<Longrightarrow> P (k, v) \<Longrightarrow> list_all P (AList.update k v al)"
  by (induction al) auto

lemma list_all_map_entry:
  "list_all P al \<Longrightarrow> map_of al k = Some v \<Longrightarrow> P (k, f v) \<Longrightarrow>
   list_all P (AList.map_entry k f al)"
  by (induction al) (auto split: if_splits)

lemma notif_frame [simp]:
  "access_requests (createNotification c a b d e f s) = access_requests s"
  "patients (createNotification c a b d e f s) = patients s"
  "doctors (createNotification c a b d e f s) = doctors s"
  "records (createNotification c a b d e f s) = records s"
  "record_versions (createNotification c a b d e f s) = record_versions s"
  by (simp_all add: createNotification_def)

lemma log_frame [simp]:
  "access_requests (logActivity c a b d e f s) = access_requests s"
  "patients (logActivity c a b d e f s) = patients s"
  "doctors (logActivity c a b d e f s) = doctors s"
  "records (logActivity c a b d e f s) = records s"
  "record_versions (logActivity c a b d e f s) = record_versions s"
  by (simp_all add: logActivity_def)

lemma stats_frame [simp]:
  "access_requests (updateDoctorStats c d opts s) = access_requests s"
  "patients (updateDoctorStats c d opts s) = patients s"
  "records (updateDoctorStats c d opts s) = records s"
  "record_versions (updateDoctorStats c d opts s) = record_versions s"
  by (simp_all add: updateDoctorStats_def Let_def split: option.splits)


lemma req_inv_frame:
  "req_inv s \<Longrightarrow> access_requests s' = access_requests s \<Longrightarrow>
   fst ` set (patients s) \<subseteq> fst ` set (patients s') \<Longrightarrow> req_inv s'"
  unfolding req_inv_def requests_wf_def at_most_one_active_def
  by (auto simp: list_all_iff)

lemma createAccessRequest_cases:
  "snd (createAccessRequest c u k b s) = s \<or>
   (\<exists>r. fst (createAccessRequest c u k b s) = Inr r \<and>
        access_requests (snd (createAccessRequest c u k b s)) = AList.update k r (access_requests s) \<and>
        patients (snd (createAccessRequest c u k b s)) = patients s \<and>
        filter (\<lambda>(_, r). overlapping (u_uid u) (b_patientId b) r) (access_requests s) = [] \<and>
        b_patientId b \<in> fst ` set (patients s) \<and>
        ar_doctorId r = u_uid u \<and> ar_patientId r = b_patientId b \<and>
        ar_status r = Pending \<and> ar_isExpired r = False)"
  by (auto simp: createAccessRequest_def Let_def split: option.splits dest!: map_of_SomeD
           intro!: image_eqI[where f = fst])

lemma req_inv_createAccessRequest:
  assumes "req_inv s"
  shows "req_inv (snd (createAccessRequest c u k b s))"
proof -
  let ?s' = "snd (createAccessRequest c u k b s)"
  from createAccessRequest_cases[of c u k b s] show ?thesis
  proof
    assume "?s' = s" with assms show ?thesis by simp
  next
    assume "\<exists>r. fst (createAccessRequest c u k b s) = Inr r \<and>
        access_requests ?s' = AList.update k r (access_requests s) \<and>
        patients ?s' = patients s \<and>
        filter (\<lambda>(_, r). overlapping (u_uid u) (b_patientId b) r) (access_requests s) = [] \<and>
        b_patientId b \<in> fst ` set (patients s) \<and>
        ar_doctorId r = u_uid u \<and> ar_patientId r = b_patientId b \<and>
        ar_status r = Pending \<and> ar_isExpired r = False"
    then obtain r where r: "access_requests ?s' = AList.update k r (access_requests s)"
      "patients ?s' = patients s"
      "filter (\<lambda>(_, r). overlapping (u_uid u) (b_patientId b) r) (access_requests s) = []"
      "b_patientId b \<in> fst ` set (patients s)"
      "ar_doctorId r = u_uid u" "ar_patientId r = b_patientId b"
      "ar_status r = Pending" "ar_isExpired r = False"
      by blast
    from assms have wf: "requests_wf s" and one: "at_most_one_active s"
      by (simp_all add: req_inv_def)
    have "requests_wf ?s'"
      unfolding requests_wf_def r(1) r(2)
    proof (intro conjI list_all_update)
      show "distinct (map fst (AList.update k r (access_requests s)))"
        using wf by (simp add: requests_wf_def distinct_update)
      show "list_all (\<lambda>(_, r). ar_patientId r \<in> fst ` set (patients s) \<and>
                         (ar_status r = Pending \<or> ar_status r = Approved \<longrightarrow> \<not> ar_isExpired r) \<and>
                         (ar_status r = Approved \<longrightarrow> ar_expiresAt r \<noteq> None))
        (access_requests s)"
        using wf by (simp add: requests_wf_def)
      show "case (k, r) of (_, r) \<Rightarrow> ar_patientId r \<in> fst ` set (patients s) \<and>
                         (ar_status r = Pending \<or> ar_status r = Approved \<longrightarrow> \<not> ar_isExpired r) \<and>
                         (ar_status r = Approved \<longrightarrow> ar_expiresAt r \<noteq> None)"
        using r by simp
    qed
    moreover have "at_most_one_active ?s'"
      unfolding at_most_one_active_def
    proof (intro allI)
      fix d p
      let ?P = "\<lambda>(_, r). overlapping d p r"
      have le: "length (filter ?P (AList.update k r (access_requests s)))
          \<le> length (filter ?P (access_requests s)) + (if ?P (k, r) then 1 else 0)"
        by (rule length_filter_update_le)
      show "length (filter ?P (access_requests ?s')) \<le> 1"
      proof (cases "overlapping d p r")
        case True
        then have "d = u_uid u" "p = b_patientId b"
          using r by (auto simp: overlapping_def)
        with r(3) have "filter ?P (access_requests s) = []" by simp
        with le r(1) show ?thesis by (simp split: if_splits)
      next
        case False
        moreover from one have "length (filter ?P (access_requests s)) \<le> 1"
          by (simp add: at_most_one_active_def)
        ultimately show ?thesis using le r(1) by simp
      qed
    qed
    ultimately show ?thesis by (simp add: req_inv_def)
  qed
qed


lemma req_inv_map_entry:
  assumes inv: "req_inv s"
    and v: "map_of (access_requests s) k = Some v"
    and s': "access_requests s' = AList.map_entry k f (access_requests s)"
    and pats: "fst ` set (patients s) \<subseteq> fst ` set (patients s')"
    and same: "ar_doctorId (f v) = ar_doctorId v" "ar_patientId (f v) = ar_patientId v"
    and act: "ar_status (f v) = Pending \<or> ar_status (f v) = Approved \<Longrightarrow>
              (ar_status v = Pending \<or> ar_status v = Approved) \<and>
              (ar_isExpired (f v) \<longrightarrow> ar_isExpired v)"
    and exp: "ar_status (f v) = Approved \<Longrightarrow> ar_expiresAt (f v) \<noteq> None"
  shows "req_inv s'"
proof -
  from inv have wf: "requests_wf s" and one: "at_most_one_active s"
    by (simp_all add: req_inv_def)
  let ?Q = "\<lambda>t. (\<lambda>(_, r). ar_patientId r \<in> fst ` set (patients t) \<and>
                         (ar_status r = Pending \<or> ar_status r = Approved \<longrightarrow> \<not> ar_isExpired r) \<and>
                         (ar_status r = Approved \<longrightarrow> ar_expiresAt r \<noteq> None))"
  have old: "list_all (?Q s) (access_requests s)"
    using wf by (simp add: requests_wf_def)
  then have old': "list_all (?Q s') (access_requests s)"
    using pats by (auto simp: list_all_iff)
  have "?Q s (k, v)"
    using old map_of_SomeD[OF v] by (auto simp: list_all_iff)
  then have new: "?Q s' (k, f v)"
    using pats same act exp by auto
  have "list_all (?Q s') (AList.map_entry k f (access_requests s))"
    using old' v new by (rule list_all_map_entry[where f = f and v = v])
  moreover have "distinct (map fst (AList.map_entry k f (access_requests s)))"
    using wf by (simp add: requests_wf_def distinct_map_entry)
  ultimately have "requests_wf s'"
    by (simp add: requests_wf_def s')
  moreover have "at_most_one_active s'"
    unfolding at_most_one_active_def s'
  proof (intro allI)
    fix d p
    let ?P = "\<lambda>(_, r). overlapping d p r"
    have "length (filter ?P (AList.map_entry k f (access_requests s)))
        \<le> length (filter ?P (access_requests s))"
      by (rule length_filter_map_entry_le[OF v]) (use same act in \<open>auto simp: overlapping_def\<close>)
    also have "\<dots> \<le> 1"
      using one by (simp add: at_most_one_active_def)
    finally show "length (filter ?P (AList.map_entry k f (access_requests s))) \<le> 1" .
  qed
  ultimately show ?thesis by (simp add: req_inv_def)
qed

lemma req_inv_respondToAccessRequest:
  assumes "req_inv s"
  shows "req_inv (snd (respondToAccessRequest c u k a n s))"
proof (cases "map_of (access_requests s) k")
  case None
  with assms show ?thesis by (simp add: respondToAccessRequest_def)
next
  case (Some v)
  show ?thesis
  proof (cases "ar_patientId v = u_uid u \<and> ar_status v = Pending")
    case False
    with Some assms show ?thesis by (auto simp: respondToAccessRequest_def Let_def)
  next
    case True
    show ?thesis
    proof (cases a)
      case False
      show ?thesis
        by (rule req_inv_map_entry[OF assms Some, where f = "\<lambda>r. r\<lparr>ar_status := Denied,
              ar_respondedAt := Some (ts_now c), ar_note := or_null n\<rparr>"])
           (use True False Some in \<open>simp_all add: respondToAccessRequest_def Let_def\<close>)
    next
      case approve: True
      let ?s1 = "updateDoctorStats c (ar_doctorId v)
                   (no_options\<lparr>so_newCase := True, so_patientId := Some (u_uid u)\<rparr>) s"
      show ?thesis
      proof (cases "map_of (patients s) (u_uid u)")
        case None
        have "req_inv ?s1" by (rule req_inv_frame[OF assms]) simp_all
        with None True approve Some show ?thesis
          by (simp add: respondToAccessRequest_def Let_def)
      next
        case pat: (Some pd)
        show ?thesis
          by (rule req_inv_map_entry[OF assms Some, where f = "\<lambda>r. r\<lparr>ar_status := Approved,
                ar_respondedAt := Some (ts_now c), ar_note := or_null n,
                ar_expiresAt := Some (date_now c + ar_expiryDays v * 24 * 60 * 60 * 1000)\<rparr>"])
             (use True approve Some pat in
               \<open>simp_all add: respondToAccessRequest_def Let_def dom_map_entry\<close>)
      qed
    qed
  qed
qed

lemma req_inv_revokeAccess:
  assumes "req_inv s"
  shows "req_inv (snd (revokeAccess c u k s))"
proof (cases "map_of (access_requests s) k")
  case None
  with assms show ?thesis by (simp add: revokeAccess_def)
next
  case (Some v)
  show ?thesis
  proof (cases "ar_patientId v = u_uid u \<and> ar_status v = Approved")
    case False
    with Some assms show ?thesis by (auto simp: revokeAccess_def Let_def)
  next
    case True
    show ?thesis
      by (rule req_inv_map_entry[OF assms Some, where f = "\<lambda>r. r\<lparr>ar_status := Revoked,
            ar_revokedAt := Some (ts_now c), ar_isExpired := True\<rparr>"])
         (use True Some in
           \<open>auto simp: revokeAccess_def Let_def dom_map_entry split: option.splits\<close>)
  qed
qed

lemma req_inv_expireStaleAccessRequests:
  assumes "req_inv s"
  shows "req_inv (expireStaleAccessRequests c s)"
proof -
  from assms have wf: "requests_wf s" and one: "at_most_one_active s"
    by (simp_all add: req_inv_def)
  let ?g = "\<lambda>(i, r). if stale (ts_now c) r
                       then (i, r\<lparr>ar_status := Expired, ar_isExpired := True\<rparr>) else (i, r)"
  let ?t = "s\<lparr>access_requests := map ?g (access_requests s)\<rparr>"
  have fst: "map fst (map ?g (access_requests s)) = map fst (access_requests s)"
    by (induction "access_requests s") (auto split: prod.splits)
  have "requests_wf ?t"
    using wf unfolding requests_wf_def
    by (auto simp: fst list_all_iff simp del: map_map split: if_splits)
  moreover have "at_most_one_active ?t"
    unfolding at_most_one_active_def
  proof (intro allI)
    fix d p
    let ?P = "\<lambda>(_, r). overlapping d p r"
    have "length (filter ?P (map ?g (access_requests s))) \<le> length (filter ?P (access_requests s))"
      by (rule length_filter_map_le) (auto simp: overlapping_def split: if_splits)
    also have "\<dots> \<le> 1" using one by (simp add: at_most_one_active_def)
    finally show "length (filter ?P (access_requests ?t)) \<le> 1" by simp
  qed
  ultimately have "req_inv ?t" by (simp add: req_inv_def)
  with assms show ?thesis
    by (simp add: expireStaleAccessRequests_def Let_def)
qed


lemma registerPatient_frame:
  "access_requests (snd (registerPatient c uid dn ph s)) = access_requests s"
  "fst ` set (patients s) \<subseteq> fst ` set (patients (snd (registerPatient c uid dn ph s)))"
  "records (snd (registerPatient c uid dn ph s)) = records s"
  "record_versions (snd (registerPatient c uid dn ph s)) = record_versions s"
  by (auto simp: registerPatient_def Let_def dom_update split: option.splits)

lemma registerDoctor_frame:
  "access_requests (snd (registerDoctor c uid b s)) = access_requests s"
  "patients (snd (registerDoctor c uid b s)) = patients s"
  "records (snd (registerDoctor c uid b s)) = records s"
  "record_versions (snd (registerDoctor c uid b s)) = record_versions s"
  by (auto simp: registerDoctor_def Let_def split: option.splits)

lemma verifyDoctor_frame:
  "access_requests (verifyDoctor uid s) = access_requests s"
  "patients (verifyDoctor uid s) = patients s"
  "records (verifyDoctor uid s) = records s"
  "record_versions (verifyDoctor uid s) = record_versions s"
  by (simp_all add: verifyDoctor_def)

lemma endorseDoctor_frame:
  "access_requests (snd (endorseDoctor c u e t k n s)) = access_requests s"
  "patients (snd (endorseDoctor c u e t k n s)) = patients s"
  "records (snd (endorseDoctor c u e t k n s)) = records s"
  "record_versions (snd (endorseDoctor c u e t k n s)) = record_versions s"
  by (auto simp: endorseDoctor_def Let_def split: option.splits)

lemma recalculate_frame:
  "access_requests (recalculateDoctorAccuracyScore d s) = access_requests s"
  "patients (recalculateDoctorAccuracyScore d s) = patients s"
  "records (recalculateDoctorAccuracyScore d s) = records s"
  "record_versions (recalculateDoctorAccuracyScore d s) = record_versions s"
  by (auto simp: recalculateDoctorAccuracyScore_def Let_def split: option.splits)

lemma onEndorsementCreated_frame:
  "access_requests (onEndorsementCreated e s) = access_requests s"
  "patients (onEndorsementCreated e s) = patients s"
  "records (onEndorsementCreated e s) = records s"
  "record_versions (onEndorsementCreated e s) = record_versions s"
  by (auto simp: onEndorsementCreated_def Let_def split: option.splits)

lemma onAccessRequestResponded_frame:
  "access_requests (onAccessRequestResponded r s) = access_requests s"
  "patients (onAccessRequestResponded r s) = patients s"
  "records (onAccessRequestResponded r s) = records s"
  "record_versions (onAccessRequestResponded r s) = record_versions s"
  by (auto simp: onAccessRequestResponded_def Let_def split: option.splits)

lemma uploadRecord_frame:
  "access_requests (snd (uploadRecord c u r v m f b s)) = access_requests s"
  "fst ` set (patients (snd (uploadRecord c u r v m f b s))) = fst ` set (patients s)"
  by (auto simp: uploadRecord_def Let_def dom_map_entry split: option.splits)

lemma addRecordVersion_frame:
  "access_requests (snd (addRecordVersion c u r v m f msg s)) = access_requests s"
  "fst ` set (patients (snd (addRecordVersion c u r v m f msg s))) = fst ` set (patients s)"
  by (auto simp: addRecordVersion_def Let_def dom_map_entry split: option.splits sum.splits)

lemma access_frame:
  "records (snd (createAccessRequest c u k b s)) = records s"
  "record_versions (snd (createAccessRequest c u k b s)) = record_versions s"
  "records (snd (respondToAccessRequest c u k a n s)) = records s"
  "record_versions (snd (respondToAccessRequest c u k a n s)) = record_versions s"
  "records (snd (revokeAccess c u k s)) = records s"
  "record_versions (snd (revokeAccess c u k s)) = record_versions s"
  "records (expireStaleAccessRequests c s) = records s"
  "record_versions (expireStaleAccessRequests c s) = record_versions s"
  by (auto simp: createAccessRequest_def respondToAccessRequest_def revokeAccess_def
        expireStaleAccessRequests_def Let_def split: option.splits)

lemma step_req_inv: "step s s' \<Longrightarrow> req_inv s \<Longrightarrow> req_inv s'"
proof (induction rule: step.induct)
  case (step_registerPatient s c uid displayName phone)
  then show ?case by (rule req_inv_frame) (rule registerPatient_frame)+
next
  case (step_registerDoctor s c uid rbody)
  then show ?case by (rule req_inv_frame) (simp_all add: registerDoctor_frame)
next
  case (step_verifyDoctor s uid)
  then show ?case by (rule req_inv_frame) (simp_all add: verifyDoctor_frame)
next
  case (step_createAccessRequest s c u requestId body)
  then show ?case by (rule req_inv_createAccessRequest)
next
  case (step_respondToAccessRequest s c u requestId approved nte)
  then show ?case by (rule req_inv_respondToAccessRequest)
next
  case (step_revokeAccess s c u requestId)
  then show ?case by (rule req_inv_revokeAccess)
next
  case (step_expireStaleAccessRequests s c)
  then show ?case by (rule req_inv_expireStaleAccessRequests)
next
  case (step_uploadRecord recordId s c u versionId commitId file' ubody)
  from this(2) show ?case by (rule req_inv_frame) (simp_all add: uploadRecord_frame)
next
  case (step_addRecordVersion recordId versionId s c u commitId file' commitMessage)
  from this(2) show ?case by (rule req_inv_frame) (simp_all add: addRecordVersion_frame)
next
  case (step_endorseDoctor s c u endorsementId targetDoctorId skill nte)
  then show ?case by (rule req_inv_frame) (simp_all add: endorseDoctor_frame)
next
  case (step_updateDoctorStats s c doctorId options)
  then show ?case by (rule req_inv_frame) simp_all
next
  case (step_recalculateDoctorAccuracyScore s doctorId)
  then show ?case by (rule req_inv_frame) (simp_all add: recalculate_frame)
next
  case (step_onEndorsementCreated s endorsement)
  then show ?case by (rule req_inv_frame) (simp_all add: onEndorsementCreated_frame)
next
  case (step_onAccessRequestResponded s request)
  then show ?case by (rule req_inv_frame) (simp_all add: onAccessRequestResponded_frame)
next
  case (step_notifications s inbox)
  then show ?case by (rule req_inv_frame) simp_all
qed

lemma reachable_req_inv: "reachable s \<Longrightarrow> req_inv s"
proof (induction rule: reachable.induct)
  case reachable_init
  show ?case
    by (simp add: req_inv_def requests_wf_def at_most_one_active_def empty_db_def)
next
  case (reachable_step s s')
  then show ?case by (blast intro: step_req_inv)
qed

section \<open>At most one active request per pair, on its own\<close>


lemma amo_frame:
  "at_most_one_active s \<Longrightarrow> access_requests s' = access_requests s \<Longrightarrow> at_most_one_active s'"
  by (simp add: at_most_one_active_def)

lemma amo_map_entry:
  assumes one: "at_most_one_active s"
    and v: "map_of (access_requests s) k = Some v"
    and s': "access_requests s' = AList.map_entry k f (access_requests s)"
    and act: "\<And>d p. overlapping d p (f v) \<Longrightarrow> overlapping d p v"
  shows "at_most_one_active s'"
  unfolding at_most_one_active_def s'
proof (intro allI)
  fix d p
  let ?P = "\<lambda>(_, r). overlapping d p r"
  have "length (filter ?P (AList.map_entry k f (access_requests s)))
      \<le> length (filter ?P (access_requests s))"
    by (rule length_filter_map_entry_le[OF v]) (use act in auto)
  also have "\<dots> \<le> 1"
    using one by (simp add: at_most_one_active_def)
  finally show "length (filter ?P (AList.map_entry k f (access_requests s))) \<le> 1" .
qed

lemma amo_createAccessRequest:
  assumes one: "at_most_one_active s"
  shows "at_most_one_active (snd (createAccessRequest c u k b s))"
proof -
  let ?s' = "snd (createAccessRequest c u k b s)"
  from createAccessRequest_cases[of c u k b s] show ?thesis
  proof
    assume "?s' = s" with assms show ?thesis by simp
  next
    assume "\<exists>r. fst (createAccessRequest c u k b s) = Inr r \<and>
        access_requests ?s' = AList.update k r (access_requests s) \<and>
        patients ?s' = patients s \<and>
        filter (\<lambda>(_, r). overlapping (u_uid u) (b_patientId b) r) (access_requests s) = [] \<and>
        b_patientId b \<in> fst ` set (patients s) \<and>
        ar_doctorId r = u_uid u \<and> ar_patientId r = b_patientId b \<and>
        ar_status r = Pending \<and> ar_isExpired r = False"
    then obtain r where r: "access_requests ?s' = AList.update k r (access_requests s)"
      "filter (\<lambda>(_, r). overlapping (u_uid u) (b_patientId b) r) (access_requests s) = []"
      "ar_doctorId r = u_uid u" "ar_patientId r = b_patientId b"
      by blast
    show ?thesis
      unfolding at_most_one_active_def
    proof (intro allI)
      fix d p
      let ?P = "\<lambda>(_, r). overlapping d p r"
      have le: "length (filter ?P (AList.update k r (access_requests s)))
          \<le> length (filter ?P (access_requests s)) + (if ?P (k, r) then 1 else 0)"
        by (rule length_filter_update_le)
      show "length (filter ?P (access_requests ?s')) \<le> 1"
      proof (cases "overlapping d p r")
        case True
        then have "d = u_uid u" "p = b_patientId b"
          using r by (auto simp: overlapping_def)
        with r(2) have "filter ?P (access_requests s) = []" by simp
        with le r(1) show ?thesis by (simp split: if_splits)
      next
        case False
        moreover from one have "length (filter ?P (access_requests s)) \<le> 1"
          by (simp add: at_most_one_active_def)
        ultimately show ?thesis using le r(1) by simp
      qed
    qed
  qed
qed

lemma amo_respondToAccessRequest:
  assumes "at_most_one_active s"
  shows "at_most_one_active (snd (respondToAccessRequest c u k a n s))"
proof (cases "map_of (access_requests s) k")
  case None
  with assms show ?thesis by (simp add: respondToAccessRequest_def)
next
  case (Some v)
  show ?thesis
  proof (cases "ar_patientId v = u_uid u \<and> ar_status v = Pending")
    case False
    with Some assms show ?thesis by (auto simp: respondToAccessRequest_def Let_def)
  next
    case True
    show ?thesis
    proof (cases a)
      case False
      show ?thesis
        by (rule amo_map_entry[OF assms Some, where f = "\<lambda>r. r\<lparr>ar_status := Denied,
              ar_respondedAt := Some (ts_now c), ar_note := or_null n\<rparr>"])
           (use True False Some in
             \<open>simp_all add: respondToAccessRequest_def Let_def overlapping_def\<close>)
    next
      case approve: True
      show ?thesis
      proof (cases "map_of (patients s) (u_uid u)")
        case None
        with True approve Some show ?thesis
          by (auto simp: respondToAccessRequest_def Let_def intro: amo_frame[OF assms])
      next
        case pat: (Some pd)
        show ?thesis
          by (rule amo_map_entry[OF assms Some, where f = "\<lambda>r. r\<lparr>ar_status := Approved,
                ar_respondedAt := Some (ts_now c), ar_note := or_null n,
                ar_expiresAt := Some (date_now c + ar_expiryDays v * 24 * 60 * 60 * 1000)\<rparr>"])
             (use True approve Some pat in
               \<open>simp_all add: respondToAccessRequest_def Let_def overlapping_def\<close>)
      qed
    qed
  qed
qed

lemma amo_revokeAccess:
  assumes "at_most_one_active s"
  shows "at_most_one_active (snd (revokeAccess c u k s))"
proof (cases "map_of (access_requests s) k")
  case None
  with assms show ?thesis by (simp add: revokeAccess_def)
next
  case (Some v)
  show ?thesis
  proof (cases "ar_patientId v = u_uid u \<and> ar_status v = Approved")
    case False
    with Some assms show ?thesis by (auto simp: revokeAccess_def Let_def)
  next
    case True
    show ?thesis
      by (rule amo_map_entry[OF assms Some, where f = "\<lambda>r. r\<lparr>ar_status := Revoked,
            ar_revokedAt := Some (ts_now c), ar_isExpired := True\<rparr>"])
         (use True Some in
           \<open>auto simp: revokeAccess_def Let_def overlapping_def split: option.splits\<close>)
  qed
qed

lemma amo_expireStaleAccessRequests:
  assumes one: "at_most_one_active s"
  shows "at_most_one_active (expireStaleAccessRequests c s)"
proof -
  let ?g = "\<lambda>(i, r). if stale (ts_now c) r
                       then (i, r\<lparr>ar_status := Expired, ar_isExpired := True\<rparr>) else (i, r)"
  let ?t = "s\<lparr>access_requests := map ?g (access_requests s)\<rparr>"
  have "at_most_one_active ?t"
    unfolding at_most_one_active_def
  proof (intro allI)
    fix d p
    let ?P = "\<lambda>(_, r). overlapping d p r"
    have "length (filter ?P (map ?g (access_requests s))) \<le> length (filter ?P (access_requests s))"
      by (rule length_filter_map_le) (auto simp: overlapping_def split: if_splits)
    also have "\<dots> \<le> 1" using one by (simp add: at_most_one_active_def)
    finally show "length (filter ?P (access_requests ?t)) \<le> 1" by simp
  qed
  with assms show ?thesis
    by (simp add: expireStaleAccessRequests_def Let_def)
qed

lemma step_amo: "step s s' \<Longrightarrow> at_most_one_active s \<Longrightarrow> at_most_one_active s'"
proof (induction rule: step.induct)
  case (step_registerPatient s c uid displayName phone)
  then show ?case by (rule amo_frame) (rule registerPatient_frame)
next
  case (step_registerDoctor s c uid rbody)
  then show ?case by (rule amo_frame) (simp_all add: registerDoctor_frame)
next
  case (step_verifyDoctor s uid)
  then show ?case by (rule amo_frame) (simp_all add: verifyDoctor_frame)
next
  case (step_createAccessRequest s c u requestId body)
  then show ?case by (rule amo_createAccessRequest)
next
  case (step_respondToAccessRequest s c u requestId approved nte)
  then show ?case by (rule amo_respondToAccessRequest)
next
  case (step_revokeAccess s c u requestId)
  then show ?case by (rule amo_revokeAccess)
next
  case (step_expireStaleAccessRequests s c)
  then show ?case by (rule amo_expireStaleAccessRequests)
next
  case (step_uploadRecord recordId s c u versionId commitId file' ubody)
  from this(2) show ?case by (rule amo_frame) (simp_all add: uploadRecord_frame)
next
  case (step_addRecordVersion recordId versionId s c u commitId file' commitMessage)
  from this(2) show ?case by (rule amo_frame) (simp_all add: addRecordVersion_frame)
next
  case (step_endorseDoctor s c u endorsementId targetDoctorId skill nte)
  then show ?case by (rule amo_frame) (simp_all add: endorseDoctor_frame)
next
  case (step_updateDoctorStats s c doctorId options)
  then show ?case by (rule amo_frame) simp_all
next
  case (step_recalculateDoctorAccuracyScore s doctorId)
  then show ?case by (rule amo_frame) (simp_all add: recalculate_frame)
next
  case (step_onEndorsementCreated s endorsement)
  then show ?case by (rule amo_frame) (simp_all add: onEndorsementCreated_frame)
next
  case (step_onAccessRequestResponded s request)
  then show ?case by (rule amo_frame) (simp_all add: onAccessRequestResponded_frame)
next
  case (step_notifications s inbox)
  then show ?case by (rule amo_frame) simp_all
qed

lemma createAccessRequest_conflict:
  assumes wf: "requests_wf s"
    and ex: "(i, r) \<in> set (access_requests s)" "overlapping (u_uid u) (b_patientId b) r"
  shows "createAccessRequest c u k b s = (Inl Conflict, s)"
proof -
  from wf ex(1) have "ar_patientId r \<in> fst ` set (patients s)"
    by (auto simp: requests_wf_def list_all_iff)
  with ex(2) have "b_patientId b \<in> fst ` set (patients s)"
    by (simp add: overlapping_def)
  then obtain pd where "map_of (patients s) (b_patientId b) = Some pd"
    by (metis domD dom_map_of_conv_image_fst)
  moreover have "filter (\<lambda>(_, r). overlapping (u_uid u) (b_patientId b) r) (access_requests s) \<noteq> []"
    using ex by (auto simp: filter_empty_conv)
  ultimately show ?thesis
    by (simp add: createAccessRequest_def)
qed

section \<open>The example states are reachable\<close>


lemmas example_defs =
  s_approved_def s_requested_def s_registered_def clock0_def clock1_def doctor_user_def
  patient_user_def lab_request_def doctor_body_def pending_r1_def approved_r1_def

lemmas handler_defs =
  respondToAccessRequest_def createAccessRequest_def registerDoctor_def registerPatient_def
  verifyDoctor_def empty_db_def updateDoctorStats_def createNotification_def logActivity_def
  Let_def overlapping_def no_options_def or_null_def increment_entry_def access_level_name_def

lemma requested_r1: "map_of (access_requests s_requested) ''r1'' = Some pending_r1"
  by (simp add: example_defs handler_defs)

lemma requested_r9: "map_of (access_requests s_requested) ''r9'' = None"
  by (simp add: example_defs handler_defs)

lemma approved_r1: "map_of (access_requests s_approved) ''r1'' = Some approved_r1"
  by (simp add: example_defs handler_defs)

lemma reachable_s_registered: "reachable s_registered"
  unfolding s_registered_def
  by (intro reachable_step[OF _ step_verifyDoctor] reachable_step[OF _ step_registerDoctor]
        reachable_step[OF _ step_registerPatient] reachable_init)



section \<open>Revocation leaves no grant behind\<close>






section \<open>The expiry sweep\<close>


lemma not_stale_expire [simp]: "\<not> stale now (expire now r)"
  by (simp add: expire_def stale_def)






section \<open>The access checks and the grant they read\<close>







section \<open>Counters of a doctor\<close>

lemma increment_entry_lookup:
  "map_of (increment_entry k d m) k = Some (case map_of m k of None \<Rightarrow> d | Some n \<Rightarrow> n + d)"
  unfolding increment_entry_def
  by (induction m) (auto split: option.splits)

lemma increment_entry_other:
  "k' \<noteq> k \<Longrightarrow> map_of (increment_entry k d m) k' = map_of m k'"
  unfolding increment_entry_def
  by (induction m) auto

lemma doctor_s_registered:
  "map_of (doctors s_registered) ''d1'' =
     Some \<lparr>dr_uid = ''d1'', dr_displayName = ''Dora'', dr_specialization = ''cardiology'',
           dr_qualifications = [''MD''], dr_licenseNumber = ''L-1234'',
           dr_hospitalAffiliations = [], dr_phone = None, dr_yearsOfExperience = 0,
           dr_isVerified = True,
           dr_stats = \<lparr>st_totalCasesHandled = 0, st_activeCases = 0, st_totalRecordsAdded = 0,
                        st_totalRecordsUpdated = 0, st_averageResponseTimeHours = None,
                        st_recordAccuracyScore = None, st_lastActiveAt = None\<rparr>,
           dr_conditionTags = [], dr_contributionGraph = [], dr_endorsementCounts = [],
           dr_createdAt = 1000, dr_updatedAt = 1000\<rparr>"
  by (simp add: example_defs handler_defs)

section \<open>Response time and accuracy score\<close>

lemma created_request_is_pending:
  "fst (createAccessRequest c u k b s) = Inr r \<Longrightarrow> ar_status r = Pending"
  by (auto simp: createAccessRequest_def Let_def split: option.splits if_splits)

lemma trigger_skips_unapproved:
  "ar_status r \<noteq> Approved \<Longrightarrow> onAccessRequestResponded r t = t"
  by (simp add: onAccessRequestResponded_def)

lemma request_and_trigger_is_request:
  "request_and_trigger c u k b s = snd (createAccessRequest c u k b s)"
proof (cases "createAccessRequest c u k b s")
  case (Pair res s')
  show ?thesis
  proof (cases res)
    case (Inl e)
    with Pair show ?thesis by (simp add: request_and_trigger_def)
  next
    case (Inr r)
    with Pair have "ar_status r = Pending"
      using created_request_is_pending[of c u k b s r] by simp
    with Pair Inr show ?thesis
      by (simp add: request_and_trigger_def trigger_skips_unapproved)
  qed
qed

lemma stats_without_sample_keep_average:
  "so_responseTimeHours opts = None \<Longrightarrow>
   map_option (\<lambda>d. st_averageResponseTimeHours (dr_stats d))
     (map_of (doctors (updateDoctorStats c doctorId opts s)) d)
   = map_option (\<lambda>d. st_averageResponseTimeHours (dr_stats d)) (map_of (doctors s) d)"
  by (auto simp: updateDoctorStats_def Let_def update_conv' split: option.splits)

lemma respond_keeps_average:
  "map_option (\<lambda>d. st_averageResponseTimeHours (dr_stats d))
     (map_of (doctors (snd (respondToAccessRequest c u k a n s))) d)
   = map_option (\<lambda>d. st_averageResponseTimeHours (dr_stats d)) (map_of (doctors s) d)"
proof -
  have "doctors (snd (respondToAccessRequest c u k a n s)) = doctors s \<or>
        (\<exists>doctorId. doctors (snd (respondToAccessRequest c u k a n s))
           = doctors (updateDoctorStats c doctorId
               (no_options\<lparr>so_newCase := True, so_patientId := Some (u_uid u)\<rparr>) s))"
    by (auto simp: respondToAccessRequest_def Let_def split: option.splits)
  then show ?thesis
    by (auto simp: stats_without_sample_keep_average no_options_def)
qed

lemma rolling_average:
  "map_of (doctors s) doctorId = Some doc \<Longrightarrow>
   map_option (\<lambda>d. st_averageResponseTimeHours (dr_stats d))
     (map_of (doctors (onResponseRecorded c doctorId x s)) doctorId)
   = Some (Some (case st_averageResponseTimeHours (dr_stats doc) of
                   None \<Rightarrow> x
                 | Some a \<Rightarrow>
                     toFixed2 ((a * (of_int (max 1 (st_totalCasesHandled (dr_stats doc))) - 1) + x)
                               / of_int (max 1 (st_totalCasesHandled (dr_stats doc))))))"
  if "0 \<le> st_totalCasesHandled (dr_stats doc)"
  using that
  by (auto simp: onResponseRecorded_def updateDoctorStats_def Let_def no_options_def
        update_conv' max_def split: option.splits)

lemma new_case_counts:
  "map_of (doctors s) doctorId = Some doc \<Longrightarrow>
   map_option (\<lambda>d. st_totalCasesHandled (dr_stats d))
     (map_of (doctors (onNewCaseApproved c doctorId s)) doctorId)
   = Some (st_totalCasesHandled (dr_stats doc) + 1)"
  by (auto simp: onNewCaseApproved_def updateDoctorStats_def Let_def no_options_def
        update_conv' split: option.splits)

lemmas scenario_defs =
  s_two_approvals_def s_two_samples_def s_two_patients_def s_endorsed_def hour_def
  second_patient_def endorser_def onNewCaseApproved_def onResponseRecorded_def
  endorseDoctor_def onEndorsementCreated_def recalculateDoctorAccuracyScore_def
  accuracy_score_def math_round_def toFixed2_def field_path_ok_def

lemma endorsement_counts:
  "fst (endorseDoctor c u e t k n s) = Inr en \<Longrightarrow> map_of (doctors s) t = Some doc \<Longrightarrow>
   map_option dr_endorsementCounts (map_of (doctors (snd (endorseDoctor c u e t k n s))) t)
   = Some (increment_entry k 1 (dr_endorsementCounts doc))"
  by (auto simp: endorseDoctor_def Let_def map_of_map_entry split: option.splits if_splits)

lemma recalculated_score:
  "map_of (doctors s) d = Some doc \<Longrightarrow>
   map_option (\<lambda>d. st_recordAccuracyScore (dr_stats d))
     (map_of (doctors (recalculateDoctorAccuracyScore d s)) d)
   = Some (if st_totalCasesHandled (dr_stats doc) = 0 then st_recordAccuracyScore (dr_stats doc)
           else Some (min 100 (math_round
                  ((of_int (sum_list (map snd (dr_endorsementCounts doc)))
                     / of_int (st_totalCasesHandled (dr_stats doc))) * 50 + 50))))"
  by (auto simp: recalculateDoctorAccuracyScore_def Let_def map_of_map_entry accuracy_score_def)

lemma triggered_score:
  "map_of (doctors s) (en_targetDoctorId e) = Some doc \<Longrightarrow>
   map_option (\<lambda>d. st_recordAccuracyScore (dr_stats d))
     (map_of (doctors (onEndorsementCreated e s)) (en_targetDoctorId e))
   = Some (Some (min 100 (math_round
                  ((of_int (sum_list (map snd (dr_endorsementCounts doc)))
                     / of_int (if st_totalCasesHandled (dr_stats doc) = 0 then 1
                               else st_totalCasesHandled (dr_stats doc))) * 50 + 50))))"
  by (auto simp: onEndorsementCreated_def Let_def map_of_map_entry accuracy_score_def)

section \<open>The version chain of a record\<close>

lemma more_frames [simp]:
  "commits (createNotification c a b d e f s) = commits s"
  "commits (logActivity c a r d i m s) = commits s"
  "commits (updateDoctorStats c x opts s) = commits s"
  by (simp_all add: createNotification_def logActivity_def updateDoctorStats_def Let_def
        split: option.splits)

lemma update_fresh_appends:
  "k \<notin> fst ` set al \<Longrightarrow> AList.update k v al = al @ [(k, v)]"
  by (induction al) auto

lemma chain_append:
  "record_versions s' = record_versions s @ [((rid, vid), v)] \<Longrightarrow>
   chain s' r = chain s r @ (if r = rid then [v] else [])"
  by (simp add: chain_def)

lemma chain_frame:
  "record_versions s' = record_versions s \<Longrightarrow> chain s' r = chain s r"
  by (simp add: chain_def)

lemma versions_wf_frame:
  "versions_wf s \<Longrightarrow> records s' = records s \<Longrightarrow> record_versions s' = record_versions s \<Longrightarrow>
   versions_wf s'"
  by (simp add: versions_wf_def chain_def)

lemma unknown_record_has_no_version:
  assumes "versions_wf s" "rid \<notin> fst ` set (records s)"
  shows "(rid, vid) \<notin> fst ` set (record_versions s)" and "chain s rid = []"
proof -
  from assms have no: "\<forall>x \<in> set (record_versions s). fst (fst x) \<noteq> rid"
    by (auto simp: versions_wf_def list_all_iff)
  then show "(rid, vid) \<notin> fst ` set (record_versions s)" by force
  from no show "chain s rid = []"
    by (auto simp: chain_def filter_empty_conv)
qed

lemma uploadRecord_cases:
  "snd (uploadRecord c u rid vid cid f b s) = s \<and> (\<exists>e. fst (uploadRecord c u rid vid cid f b s) = Inl e) \<or>
   (\<exists>record version commit.
      fst (uploadRecord c u rid vid cid f b s) = Inr (record, version) \<and>
      records (snd (uploadRecord c u rid vid cid f b s)) = AList.update rid record (records s) \<and>
      record_versions (snd (uploadRecord c u rid vid cid f b s))
        = AList.update (rid, vid) version (record_versions s) \<and>
      commits (snd (uploadRecord c u rid vid cid f b s)) = AList.update cid commit (commits s) \<and>
      rc_currentVersion record = 1 \<and> rc_totalVersions record = 1 \<and>
      rc_currentVersionId record = vid \<and>
      vn_versionNumber version = 1 \<and> vn_changeType version = Initial_upload \<and>
      vn_recordId version = rid \<and> vn_id version = vid \<and>
      cm_versionId commit = vid \<and> cm_recordId commit = rid \<and>
      cm_changeType commit = Initial_upload)"
  by (auto simp: uploadRecord_def Let_def logActivity_def split: option.splits)

lemma addRecordVersion_cases:
  "records (snd (addRecordVersion c u rid vid cid f msg s)) = records s \<and>
   record_versions (snd (addRecordVersion c u rid vid cid f msg s)) = record_versions s \<and>
   (\<exists>e. fst (addRecordVersion c u rid vid cid f msg s) = Inl e) \<or>
   (\<exists>record version commit.
      map_of (records s) rid = Some record \<and>
      fst (addRecordVersion c u rid vid cid f msg s) = Inr version \<and>
      records (snd (addRecordVersion c u rid vid cid f msg s))
        = AList.map_entry rid
            (\<lambda>r. r\<lparr>rc_currentVersion := rc_currentVersion record + 1,
                   rc_currentVersionId := vid,
                   rc_totalVersions := rc_totalVersions r + 1,
                   rc_updatedAt := ts_now c\<rparr>) (records s) \<and>
      record_versions (snd (addRecordVersion c u rid vid cid f msg s))
        = AList.update (rid, vid) version (record_versions s) \<and>
      commits (snd (addRecordVersion c u rid vid cid f msg s))
        = AList.update cid commit (commits s) \<and>
      vn_versionNumber version = rc_currentVersion record + 1 \<and>
      vn_changeType version = Update \<and> vn_recordId version = rid \<and> vn_id version = vid \<and>
      cm_versionId commit = vid \<and> cm_recordId commit = rid \<and> cm_changeType commit = Update)"
proof (cases f)
  case None
  then show ?thesis by (simp add: addRecordVersion_def)
next
  case (Some fl)
  show ?thesis
  proof (cases "map_of (records s) rid")
    case None
    with Some show ?thesis by (simp add: addRecordVersion_def)
  next
    case rec: (Some rcd)
    show ?thesis
    proof (cases "u_role u = Patient \<and> rc_patientId rcd \<noteq> u_uid u")
      case True
      with Some rec show ?thesis by (simp add: addRecordVersion_def)
    next
      case allowed: False
      show ?thesis
      proof (cases "if u_role u = Doctor
                    then assertDoctorWriteAccess s (u_uid u) (rc_patientId rcd) else Inr ()")
        case (Inl e)
        with Some rec allowed show ?thesis by (simp add: addRecordVersion_def Let_def)
      next
        case (Inr x)
        show ?thesis
        proof (cases "map_of (patients s) (rc_patientId rcd)")
          case None
          with Some rec allowed Inr show ?thesis by (simp add: addRecordVersion_def Let_def)
        next
          case pat: (Some pd)
          with Some rec allowed Inr show ?thesis
            by (auto simp: addRecordVersion_def Let_def)
        qed
      qed
    qed
  qed
qed


lemma versions_wf_uploadRecord:
  assumes wf: "versions_wf s" and fresh: "rid \<notin> fst ` set (records s)"
  shows "versions_wf (snd (uploadRecord c u rid vid cid f b s))"
proof -
  let ?s' = "snd (uploadRecord c u rid vid cid f b s)"
  from uploadRecord_cases[of c u rid vid cid f b s] show ?thesis
  proof (elim disjE conjE exE)
    assume "?s' = s" with wf show ?thesis by simp
  next
    fix rcd ver com
    assume recs: "records ?s' = AList.update rid rcd (records s)"
      and vers: "record_versions ?s' = AList.update (rid, vid) ver (record_versions s)"
      and one: "rc_currentVersion rcd = 1" "rc_totalVersions rcd = 1"
        "vn_versionNumber ver = 1"
    have nokey: "(rid, vid) \<notin> fst ` set (record_versions s)"
      by (rule unknown_record_has_no_version(1)[OF wf fresh])
    have empty: "chain s rid = []"
      by (rule unknown_record_has_no_version(2)[OF wf fresh])
    have vers': "record_versions ?s' = record_versions s @ [((rid, vid), ver)]"
      by (simp add: vers update_fresh_appends[OF nokey])
    have ch: "chain ?s' r = chain s r @ (if r = rid then [ver] else [])" for r
      by (rule chain_append[OF vers'])
    have "list_all (\<lambda>((r, _), _). r \<in> fst ` set (records ?s')) (record_versions ?s')"
      using wf by (auto simp: versions_wf_def list_all_iff recs vers' dom_update)
    moreover have "map vn_versionNumber (chain ?s' r) = [1 .. rc_currentVersion q] \<and>
         rc_totalVersions q = rc_currentVersion q \<and> 1 \<le> rc_currentVersion q"
      if q: "map_of (records ?s') r = Some q" for r q
    proof (cases "r = rid")
      case True
      with q recs have "q = rcd" by (simp add: update_conv')
      with True one empty show ?thesis by (simp add: ch)
    next
      case False
      with q recs have "map_of (records s) r = Some q" by (simp add: update_conv')
      with wf False show ?thesis by (simp add: versions_wf_def ch)
    qed
    ultimately show ?thesis by (simp add: versions_wf_def)
  qed
qed

lemma versions_wf_addRecordVersion:
  assumes wf: "versions_wf s" and fresh: "(rid, vid) \<notin> fst ` set (record_versions s)"
  shows "versions_wf (snd (addRecordVersion c u rid vid cid f msg s))"
proof -
  let ?s' = "snd (addRecordVersion c u rid vid cid f msg s)"
  from addRecordVersion_cases[of c u rid vid cid f msg s] show ?thesis
  proof (elim disjE conjE exE)
    assume "records ?s' = records s" "record_versions ?s' = record_versions s"
    with wf show ?thesis by (rule versions_wf_frame)
  next
    fix rcd ver com
    assume old: "map_of (records s) rid = Some rcd"
      and recs: "records ?s' = AList.map_entry rid
            (\<lambda>r. r\<lparr>rc_currentVersion := rc_currentVersion rcd + 1,
                   rc_currentVersionId := vid,
                   rc_totalVersions := rc_totalVersions r + 1,
                   rc_updatedAt := ts_now c\<rparr>) (records s)"
      and vers: "record_versions ?s' = AList.update (rid, vid) ver (record_versions s)"
      and num: "vn_versionNumber ver = rc_currentVersion rcd + 1"
    have vers': "record_versions ?s' = record_versions s @ [((rid, vid), ver)]"
      by (simp add: vers update_fresh_appends[OF fresh])
    have ch: "chain ?s' r = chain s r @ (if r = rid then [ver] else [])" for r
      by (rule chain_append[OF vers'])
    from wf old have cur: "map vn_versionNumber (chain s rid) = [1 .. rc_currentVersion rcd]"
      "rc_totalVersions rcd = rc_currentVersion rcd" "1 \<le> rc_currentVersion rcd"
      by (simp_all add: versions_wf_def)
    have "rid \<in> fst ` set (records s)"
      using map_of_SomeD[OF old] by force
    then have "list_all (\<lambda>((r, _), _). r \<in> fst ` set (records ?s')) (record_versions ?s')"
      using wf by (auto simp: versions_wf_def list_all_iff recs vers' dom_map_entry)
    moreover have "map vn_versionNumber (chain ?s' r) = [1 .. rc_currentVersion q] \<and>
         rc_totalVersions q = rc_currentVersion q \<and> 1 \<le> rc_currentVersion q"
      if q: "map_of (records ?s') r = Some q" for r q
    proof (cases "r = rid")
      case True
      with q recs old have q': "q = rcd\<lparr>rc_currentVersion := rc_currentVersion rcd + 1,
                   rc_currentVersionId := vid,
                   rc_totalVersions := rc_totalVersions rcd + 1,
                   rc_updatedAt := ts_now c\<rparr>"
        by (simp add: map_of_map_entry)
      have "[1 .. rc_currentVersion rcd + 1] = [1 .. rc_currentVersion rcd] @ [rc_currentVersion rcd + 1]"
        using cur(3) by (simp add: upto_rec2)
      with True q' cur num show ?thesis by (simp add: ch)
    next
      case False
      with q recs have "map_of (records s) r = Some q" by (simp add: map_of_map_entry)
      with wf False show ?thesis by (simp add: versions_wf_def ch)
    qed
    ultimately show ?thesis by (simp add: versions_wf_def)
  qed
qed

lemma step_versions_wf: "step s s' \<Longrightarrow> versions_wf s \<Longrightarrow> versions_wf s'"
proof (induction rule: step.induct)
  case (step_registerPatient s c uid displayName phone)
  then show ?case by (rule versions_wf_frame) (rule registerPatient_frame)+
next
  case (step_registerDoctor s c uid rbody)
  then show ?case by (rule versions_wf_frame) (rule registerDoctor_frame)+
next
  case (step_verifyDoctor s uid)
  then show ?case by (rule versions_wf_frame) (rule verifyDoctor_frame)+
next
  case (step_createAccessRequest s c u requestId body)
  then show ?case by (rule versions_wf_frame) (rule access_frame)+
next
  case (step_respondToAccessRequest s c u requestId approved nte)
  then show ?case by (rule versions_wf_frame) (rule access_frame)+
next
  case (step_revokeAccess s c u requestId)
  then show ?case by (rule versions_wf_frame) (rule access_frame)+
next
  case (step_expireStaleAccessRequests s c)
  then show ?case by (rule versions_wf_frame) (rule access_frame)+
next
  case (step_uploadRecord recordId s c u versionId commitId file' ubody)
  then show ?case by (simp add: versions_wf_uploadRecord)
next
  case (step_addRecordVersion recordId versionId s c u commitId file' commitMessage)
  then show ?case by (simp add: versions_wf_addRecordVersion)
next
  case (step_endorseDoctor s c u endorsementId targetDoctorId skill nte)
  then show ?case by (rule versions_wf_frame) (rule endorseDoctor_frame)+
next
  case (step_updateDoctorStats s c doctorId options)
  then show ?case by (rule versions_wf_frame) simp_all
next
  case (step_recalculateDoctorAccuracyScore s doctorId)
  then show ?case by (rule versions_wf_frame) (rule recalculate_frame)+
next
  case (step_onEndorsementCreated s endorsement)
  then show ?case by (rule versions_wf_frame) (rule onEndorsementCreated_frame)+
next
  case (step_onAccessRequestResponded s request)
  then show ?case by (rule versions_wf_frame) (rule onAccessRequestResponded_frame)+
next
  case (step_notifications s inbox)
  then show ?case by (rule versions_wf_frame) simp_all
qed

lemma reachable_versions_wf: "reachable s \<Longrightarrow> versions_wf s"
proof (induction rule: reachable.induct)
  case reachable_init
  show ?case by (simp add: versions_wf_def empty_db_def)
next
  case (reachable_step s s')
  then show ?case by (blast intro: step_versions_wf)
qed

lemma step_version_monotone:
  "step s s' \<Longrightarrow> map_of (records s) r = Some q \<Longrightarrow>
   \<exists>q'. map_of (records s') r = Some q' \<and> rc_currentVersion q \<le> rc_currentVersion q'"
proof (induction rule: step.induct)
  case (step_uploadRecord recordId s c u versionId commitId file' ubody)
  from step_uploadRecord.prems have "r \<in> fst ` set (records s)"
    using map_of_SomeD by force
  with step_uploadRecord.hyps have ne: "r \<noteq> recordId" by blast
  from uploadRecord_cases[of c u recordId versionId commitId file' ubody s]
  show ?case
    using step_uploadRecord.prems ne by (auto simp: update_conv')
next
  case (step_addRecordVersion recordId versionId s c u commitId file' commitMessage)
  from addRecordVersion_cases[of c u recordId versionId commitId file' commitMessage s]
  show ?case
    using step_addRecordVersion.prems by (auto simp: map_of_map_entry)
qed (simp_all add: registerPatient_frame registerDoctor_frame verifyDoctor_frame access_frame
       endorseDoctor_frame recalculate_frame onEndorsementCreated_frame
       onAccessRequestResponded_frame)


lemmas record_defs =
  s_uploaded_def s_versioned_def scan_def lab_upload_def uploadRecord_def addRecordVersion_def
  assertDoctorWriteAccess_def chain_def

lemma reachable_s_uploaded: "reachable s_uploaded"
  unfolding s_uploaded_def
proof (rule reachable_step[OF reachable_s_registered step_uploadRecord])
  show "''rec1'' \<notin> fst ` set (records s_registered)"
    by (simp add: example_defs handler_defs)
qed

lemma reachable_s_versioned: "reachable s_versioned"
  unfolding s_versioned_def
proof (rule reachable_step[OF reachable_s_uploaded step_addRecordVersion])
  show "(''rec1'', ''v2'') \<notin> fst ` set (record_versions s_uploaded)"
    by (simp add: record_defs example_defs handler_defs)
qed

lemma step_s_uploaded_s_versioned: "step s_uploaded s_versioned"
  unfolding s_versioned_def
proof (rule step_addRecordVersion)
  show "(''rec1'', ''v2'') \<notin> fst ` set (record_versions s_uploaded)"
    by (simp add: record_defs example_defs handler_defs)
qed

section \<open>Public data of a doctor\<close>

lemma publicData_same:
  "same_but_sensitive d d' \<Longrightarrow> publicData d' = publicData d"
proof -
  assume "same_but_sensitive d d'"
  then have "d' = d\<lparr>dr_licenseNumber := dr_licenseNumber d', dr_phone := dr_phone d'\<rparr>"
    by (simp add: same_but_sensitive_def)
  then have "publicData d' =
      publicData (d\<lparr>dr_licenseNumber := dr_licenseNumber d', dr_phone := dr_phone d'\<rparr>)"
    by simp
  then show ?thesis by (simp add: publicData_def)
qed

lemma same_fields:
  assumes "same_but_sensitive d d'"
  shows "dr_isVerified d' = dr_isVerified d" "dr_specialization d' = dr_specialization d"
    "dr_conditionTags d' = dr_conditionTags d" "dr_contributionGraph d' = dr_contributionGraph d"
proof -
  from assms have e: "d' = d\<lparr>dr_licenseNumber := dr_licenseNumber d', dr_phone := dr_phone d'\<rparr>"
    by (simp add: same_but_sensitive_def)
  show "dr_isVerified d' = dr_isVerified d" by (subst e) simp
  show "dr_specialization d' = dr_specialization d" by (subst e) simp
  show "dr_conditionTags d' = dr_conditionTags d" by (subst e) simp
  show "dr_contributionGraph d' = dr_contributionGraph d" by (subst e) simp
qed

lemma list_all2_filter:
  "list_all2 R xs ys \<Longrightarrow> (\<And>x y. R x y \<Longrightarrow> P x = P y) \<Longrightarrow>
   list_all2 R (filter P xs) (filter P ys)"
  by (induction rule: list_all2_induct) auto

lemma list_all2_map_eq:
  "list_all2 R xs ys \<Longrightarrow> (\<And>x y. R x y \<Longrightarrow> f x = f y) \<Longrightarrow> map f xs = map f ys"
  by (induction rule: list_all2_induct) auto

lemma list_all2_map_of:
  "list_all2 (\<lambda>x y. fst x = fst y \<and> R (snd x) (snd y)) xs ys \<Longrightarrow>
   rel_option R (map_of xs k) (map_of ys k)"
  by (induction rule: list_all2_induct) auto

lemma found_related:
  assumes "list_all2 (\<lambda>x y. fst x = fst y \<and> same_but_sensitive (snd x) (snd y)) ds ds'"
  shows "list_all2 (\<lambda>x y. fst x = fst y \<and> same_but_sensitive (snd x) (snd y))
           (found q ds) (found q ds')"
  unfolding found_def Let_def
  by (auto split: option.splits intro!: list_all2_filter assms simp: same_fields case_prod_beta)

lemma discover_public:
  assumes "list_all2 (\<lambda>x y. fst x = fst y \<and> same_but_sensitive (snd x) (snd y))
             (doctors s) (doctors s')"
  shows "map (\<lambda>(_, d). publicData d) (found q (doctors s'))
       = map (\<lambda>(_, d). publicData d) (found q (doctors s))"
  by (rule list_all2_map_eq[OF found_related[OF assms], symmetric])
     (auto simp: publicData_same)

lemma discoverDoctors_found:
  "discoverDoctors q s =
     (let sortBy = (case q_sortBy q of None \<Rightarrow> ''totalCasesHandled'' | Some b \<Rightarrow> b);
          limitParam = (case q_limit q of None \<Rightarrow> Some 20 | Some l \<Rightarrow> l);
          page = (case q_page q of None \<Rightarrow> Some 1 | Some g \<Rightarrow> g);
          pageLimit = map_option (\<lambda>l. min l 50) limitParam;
          offset = (case (page, pageLimit) of
                      (Some g, Some l) \<Rightarrow> Some ((g - 1) * l) | _ \<Rightarrow> None);
          doctors0 = map (\<lambda>(_, d). publicData d) (found q (doctors s));
          doctors1 = (case q_minCases q of
                        None \<Rightarrow> doctors0
                      | Some None \<Rightarrow> []
                      | Some (Some n) \<Rightarrow>
                          filter (\<lambda>d. st_totalCasesHandled (pd_stats d) \<ge> n) doctors0);
          doctors2 = sort_by (compare_doctors sortBy) doctors1;
          total = int (length doctors2);
          paginated = (case (offset, pageLimit) of
                         (Some off, Some l) \<Rightarrow> js_slice off (off + l) doctors2
                       | _ \<Rightarrow> [])
      in (paginated,
          \<lparr>pg_total = total, pg_page = page, pg_limit = pageLimit,
           pg_totalPages =
             (case pageLimit of
                None \<Rightarrow> None
              | Some l \<Rightarrow> if l = 0 then None
                         else Some \<lceil>(of_int total :: rat) / of_int l\<rceil>)\<rparr>))"
  unfolding discoverDoctors_def found_def Let_def ..

section \<open>Calls served one after another\<close>

text \<open>
  What the handlers keep when no call runs between the reads and the writes of another
  (the relation \<open>step\<close>): at most one request of a pair is pending or approved, and a
  second request of the pair is refused with 409.
\<close>

lemma served_in_turn_one_active_request:
  "(at_most_one_active s \<and> step s s' \<longrightarrow> at_most_one_active s') \<and>
   (reachable s \<longrightarrow>
      at_most_one_active s \<and>
      ((\<exists>x \<in> set (access_requests s). overlapping (u_uid u) (b_patientId body) (snd x)) \<longrightarrow>
         createAccessRequest c u requestId body s = (Inl Conflict, s)))"
proof (intro conjI impI)
  assume "at_most_one_active s \<and> step s s'"
  then show "at_most_one_active s'" by (blast intro: step_amo)
next
  assume "reachable s"
  then show "at_most_one_active s" using reachable_req_inv by (simp add: req_inv_def)
next
  assume r: "reachable s"
    and "\<exists>x \<in> set (access_requests s). overlapping (u_uid u) (b_patientId body) (snd x)"
  then obtain i q where "(i, q) \<in> set (access_requests s)"
    "overlapping (u_uid u) (b_patientId body) q" by auto
  moreover from r have "requests_wf s" using reachable_req_inv by (simp add: req_inv_def)
  ultimately show "createAccessRequest c u requestId body s = (Inl Conflict, s)"
    by (blast intro: createAccessRequest_conflict)
qed

text \<open>
  In the same way the version numbers of a record are 1, 2, ..., N with N the current
  version, the total count and the length of the chain, no whole call lowers the
  current version, \<open>uploadRecord\<close> creates version 1 and \<open>addRecordVersion\<close> numbers
  the new version one above the current version that it has read.
\<close>

lemma served_in_turn_version_numbers:
  "(reachable s \<and> map_of (records s) recordId = Some rcd \<longrightarrow>
      map vn_versionNumber (chain s recordId) = [1 .. rc_currentVersion rcd] \<and>
      rc_currentVersion rcd = int (length (chain s recordId)) \<and>
      rc_totalVersions rcd = int (length (chain s recordId))) \<and>
   (step s s' \<and> map_of (records s) recordId = Some rcd \<longrightarrow>
      (\<exists>rcd'. map_of (records s') recordId = Some rcd' \<and>
              rc_currentVersion rcd \<le> rc_currentVersion rcd')) \<and>
   (fst (uploadRecord c u recordId versionId commitId file' ubody s) = Inr (created, ver) \<longrightarrow>
      rc_currentVersion created = 1 \<and> rc_totalVersions created = 1 \<and>
      vn_versionNumber ver = 1 \<and> vn_changeType ver = Initial_upload \<and>
      (let s1 = snd (uploadRecord c u recordId versionId commitId file' ubody s)
       in map_of (records s1) recordId = Some created \<and>
          map_of (record_versions s1) (recordId, versionId) = Some ver \<and>
          (\<exists>com. map_of (commits s1) commitId = Some com \<and> cm_versionId com = versionId \<and>
                 cm_changeType com = Initial_upload))) \<and>
   (fst (addRecordVersion c u recordId versionId commitId file' msg s) = Inr ver \<and>
    map_of (records s) recordId = Some rcd \<longrightarrow>
      vn_versionNumber ver = rc_currentVersion rcd + 1 \<and> vn_changeType ver = Update \<and>
      (let s1 = snd (addRecordVersion c u recordId versionId commitId file' msg s)
       in (\<exists>rcd'. map_of (records s1) recordId = Some rcd' \<and>
                  rc_currentVersion rcd' = rc_currentVersion rcd + 1 \<and>
                  rc_currentVersionId rcd' = versionId \<and>
                  rc_totalVersions rcd' = rc_totalVersions rcd + 1) \<and>
          map_of (record_versions s1) (recordId, versionId) = Some ver \<and>
          (\<exists>com. map_of (commits s1) commitId = Some com \<and> cm_versionId com = versionId \<and>
                 cm_changeType com = Update)))"
proof -
  have p1: "map vn_versionNumber (chain s recordId) = [1 .. rc_currentVersion rcd] \<and>
      rc_currentVersion rcd = int (length (chain s recordId)) \<and>
      rc_totalVersions rcd = int (length (chain s recordId))"
    if "reachable s \<and> map_of (records s) recordId = Some rcd"
  proof -
    from that have wf: "versions_wf s" and a: "map_of (records s) recordId = Some rcd"
      by (simp_all add: reachable_versions_wf)
    then have n: "map vn_versionNumber (chain s recordId) = [1 .. rc_currentVersion rcd]"
      and t: "rc_totalVersions rcd = rc_currentVersion rcd" and p: "1 \<le> rc_currentVersion rcd"
      by (simp_all add: versions_wf_def)
    from n have "length (chain s recordId) = length [1 .. rc_currentVersion rcd]"
      by (metis length_map)
    with p have l: "int (length (chain s recordId)) = rc_currentVersion rcd" by simp
    from n t l show ?thesis by simp
  qed
  have p2: "\<exists>rcd'. map_of (records s') recordId = Some rcd' \<and>
              rc_currentVersion rcd \<le> rc_currentVersion rcd'"
    if "step s s' \<and> map_of (records s) recordId = Some rcd"
    using that by (blast intro: step_version_monotone)
  have p3: "rc_currentVersion created = 1 \<and> rc_totalVersions created = 1 \<and>
      vn_versionNumber ver = 1 \<and> vn_changeType ver = Initial_upload \<and>
      (let s1 = snd (uploadRecord c u recordId versionId commitId file' ubody s)
       in map_of (records s1) recordId = Some created \<and>
          map_of (record_versions s1) (recordId, versionId) = Some ver \<and>
          (\<exists>com. map_of (commits s1) commitId = Some com \<and> cm_versionId com = versionId \<and>
                 cm_changeType com = Initial_upload))"
    if "fst (uploadRecord c u recordId versionId commitId file' ubody s) = Inr (created, ver)"
    using uploadRecord_cases[of c u recordId versionId commitId file' ubody s] that
    by (auto simp: Let_def update_conv')
  have p4: "vn_versionNumber ver = rc_currentVersion rcd + 1 \<and> vn_changeType ver = Update \<and>
      (let s1 = snd (addRecordVersion c u recordId versionId commitId file' msg s)
       in (\<exists>rcd'. map_of (records s1) recordId = Some rcd' \<and>
                  rc_currentVersion rcd' = rc_currentVersion rcd + 1 \<and>
                  rc_currentVersionId rcd' = versionId \<and>
                  rc_totalVersions rcd' = rc_totalVersions rcd + 1) \<and>
          map_of (record_versions s1) (recordId, versionId) = Some ver \<and>
          (\<exists>com. map_of (commits s1) commitId = Some com \<and> cm_versionId com = versionId \<and>
                 cm_changeType com = Update))"
    if "fst (addRecordVersion c u recordId versionId commitId file' msg s) = Inr ver \<and>
        map_of (records s) recordId = Some rcd"
    using addRecordVersion_cases[of c u recordId versionId commitId file' msg s] that
    by (auto simp: Let_def update_conv' map_of_map_entry)
  from p1 p2 p3 p4 show ?thesis by blast
qed

section \<open>The halves of a handler, and calls that overlap\<close>

text \<open>
  A handler is its reads followed by its writes on the same database; a run of whole
  calls is an execution with no call in flight.
\<close>

lemma createAccessRequest_halves:
  "createAccessRequest c u requestId body s =
     (case createAccessRequest_read u body s of
        Inl e \<Rightarrow> (Inl e, s)
      | Inr _ \<Rightarrow> (Inr (fst (createAccessRequest_write c u requestId body s)),
                  snd (createAccessRequest_write c u requestId body s)))"
  by (simp add: createAccessRequest_def createAccessRequest_read_def
        createAccessRequest_write_def Let_def split: option.splits)

lemma addRecordVersion_halves:
  "addRecordVersion c u recordId versionId commitId file' commitMessage s =
     append_from s c u recordId versionId commitId file' commitMessage s"
proof (cases file')
  case None
  then show ?thesis
    by (simp add: addRecordVersion_def append_from_def addRecordVersion_read_def)
next
  case (Some fl)
  show ?thesis
  proof (cases "map_of (records s) recordId")
    case None
    with Some show ?thesis
      by (simp add: addRecordVersion_def append_from_def addRecordVersion_read_def)
  next
    case rcd: (Some rcd)
    show ?thesis
    proof (cases "if u_role u = Doctor
        then assertDoctorWriteAccess s (u_uid u) (rc_patientId rcd) else Inr ()")
      case (Inl e)
      with Some rcd show ?thesis
        by (simp add: addRecordVersion_def append_from_def addRecordVersion_read_def Let_def)
    next
      case (Inr x)
      with Some rcd show ?thesis
        by (simp add: addRecordVersion_def append_from_def addRecordVersion_read_def
              addRecordVersion_commit_def Let_def)
    qed
  qed
qed

lemma reachable_execution: "reachable s \<Longrightarrow> execution (s, [])"
proof (induction rule: reachable.induct)
  case reachable_init
  show ?case by (rule execution_init)
next
  case (reachable_step s s')
  from reachable_step.hyps(2) have "interleaved (s, []) (s', [])" by (rule whole_call)
  with reachable_step.IH show ?case by (rule execution_step)
qed

lemmas overlap_defs =
  s_two_requests_def createAccessRequest_read_def createAccessRequest_write_def

lemma read_passes_s_registered:
  "createAccessRequest_read doctor_user lab_request s_registered = Inr ()"
  by (simp add: overlap_defs example_defs handler_defs)

lemma execution_s_two_requests: "execution (s_two_requests, [])"
proof -
  let ?a = "Creating doctor_user lab_request"
  let ?s1 = "snd (createAccessRequest_write clock0 doctor_user ''r1'' lab_request s_registered)"
  have e0: "execution (s_registered, [])"
    by (rule reachable_execution[OF reachable_s_registered])
  have "interleaved (s_registered, []) (s_registered, [?a])"
    by (rule create_read[OF read_passes_s_registered])
  with e0 have e1: "execution (s_registered, [?a])" by (rule execution_step)
  have "interleaved (s_registered, [?a]) (s_registered, [?a, ?a])"
    by (rule create_read[OF read_passes_s_registered])
  with e1 have e2: "execution (s_registered, [?a, ?a])" by (rule execution_step)
  have f1: "''r1'' \<notin> fst ` set (access_requests s_registered)"
    by (simp add: example_defs handler_defs)
  have "interleaved (s_registered, [] @ ?a # [?a]) (?s1, [] @ [?a])"
    by (rule create_write[OF f1])
  with e2 have e3: "execution (?s1, [?a])" by (simp add: execution_step)
  have f2: "''r2'' \<notin> fst ` set (access_requests ?s1)"
    by (simp add: overlap_defs example_defs handler_defs)
  have "interleaved (?s1, [] @ ?a # []) (s_two_requests, [] @ [])"
    unfolding s_two_requests_def by (rule create_write[OF f2])
  with e3 show ?thesis by (simp add: execution_step)
qed

lemmas append_defs =
  s_two_appends_def s_three_versions_def s_late_commit_def append_from_def
  addRecordVersion_read_def addRecordVersion_commit_def

lemma execution_s_two_appends: "execution (s_two_appends, [])"
proof -
  obtain snap where rd:
    "addRecordVersion_read patient_user ''rec1'' (Some scan) s_uploaded = Inr (scan, snap)"
    by (simp add: append_defs record_defs example_defs handler_defs)
  let ?a2 = "Appending clock1 patient_user ''rec1'' ''v2'' scan ''second scan'' snap"
  let ?a3 = "Appending clock1 patient_user ''rec1'' ''v3'' scan ''third scan'' snap"
  let ?s2 = "snd (append_from s_uploaded clock1 patient_user ''rec1'' ''v2'' ''c2'' (Some scan)
               ''second scan'' s_uploaded)"
  have s2: "?s2 = snd (addRecordVersion_commit clock1 patient_user ''rec1'' ''v2'' ''c2'' scan
               ''second scan'' snap s_uploaded)"
    by (simp add: append_from_def rd)
  have s3: "s_two_appends = snd (addRecordVersion_commit clock1 patient_user ''rec1'' ''v3''
               ''c3'' scan ''third scan'' snap ?s2)"
    by (simp add: s_two_appends_def append_from_def[of s_uploaded] rd)
  have e0: "execution (s_uploaded, [])"
    by (rule reachable_execution[OF reachable_s_uploaded])
  have f2: "(''rec1'', ''v2'') \<notin> fst ` set (record_versions s_uploaded)"
    by (simp add: record_defs example_defs handler_defs)
  have f3: "(''rec1'', ''v3'') \<notin> fst ` set (record_versions s_uploaded)"
    by (simp add: record_defs example_defs handler_defs)
  have "interleaved (s_uploaded, []) (s_uploaded, [?a2])"
    by (rule append_read[OF rd f2])
  with e0 have e1: "execution (s_uploaded, [?a2])" by (rule execution_step)
  have "interleaved (s_uploaded, [?a2]) (s_uploaded, [?a3, ?a2])"
    by (rule append_read[OF rd f3])
  with e1 have e2: "execution (s_uploaded, [?a3, ?a2])" by (rule execution_step)
  have "interleaved (s_uploaded, [?a3] @ ?a2 # []) (?s2, [?a3] @ [])"
    unfolding s2 by (rule append_commit[OF f2])
  with e2 have e3: "execution (?s2, [?a3])" by (simp add: execution_step)
  have f3': "(''rec1'', ''v3'') \<notin> fst ` set (record_versions ?s2)"
    by (simp add: append_defs record_defs example_defs handler_defs)
  have "interleaved (?s2, [] @ ?a3 # []) (s_two_appends, [] @ [])"
    unfolding s3 by (rule append_commit[OF f3'])
  with e3 show ?thesis by (simp add: execution_step)
qed

lemma slow_append:
  "\<exists>pool. execution (s_three_versions, pool) \<and>
          interleaved (s_three_versions, pool) (s_late_commit, [])"
proof -
  obtain snap where rd:
    "addRecordVersion_read patient_user ''rec1'' (Some scan) s_uploaded = Inr (scan, snap)"
    by (simp add: append_defs record_defs example_defs handler_defs)
  let ?a4 = "Appending clock0 patient_user ''rec1'' ''v4'' scan ''slow scan'' snap"
  have s4: "s_late_commit = snd (addRecordVersion_commit clock0 patient_user ''rec1'' ''v4''
               ''c4'' scan ''slow scan'' snap s_three_versions)"
    by (simp add: s_late_commit_def append_from_def rd)
  have e0: "execution (s_uploaded, [])"
    by (rule reachable_execution[OF reachable_s_uploaded])
  have f4: "(''rec1'', ''v4'') \<notin> fst ` set (record_versions s_uploaded)"
    by (simp add: record_defs example_defs handler_defs)
  have "interleaved (s_uploaded, []) (s_uploaded, [?a4])"
    by (rule append_read[OF rd f4])
  with e0 have e1: "execution (s_uploaded, [?a4])" by (rule execution_step)
  have "interleaved (s_uploaded, [?a4]) (s_versioned, [?a4])"
    by (rule whole_call[OF step_s_uploaded_s_versioned])
  with e1 have e2: "execution (s_versioned, [?a4])" by (rule execution_step)
  have f3: "(''rec1'', ''v3'') \<notin> fst ` set (record_versions s_versioned)"
    by (simp add: record_defs example_defs handler_defs)
  have "step s_versioned s_three_versions"
    unfolding s_three_versions_def by (rule step_addRecordVersion[OF f3])
  then have "interleaved (s_versioned, [?a4]) (s_three_versions, [?a4])"
    by (rule whole_call)
  with e2 have e3: "execution (s_three_versions, [?a4])" by (rule execution_step)
  have f4': "(''rec1'', ''v4'') \<notin> fst ` set (record_versions s_three_versions)"
    by (simp add: append_defs record_defs example_defs handler_defs)
  have "interleaved (s_three_versions, [] @ ?a4 # []) (s_late_commit, [] @ [])"
    unfolding s4 by (rule append_commit[OF f4'])
  with e3 show ?thesis by auto
qed

section \<open>The claims\<close>

subsection \<open>C1: the access check\<close>



lemma reachable_s_rw_approved: "reachable s_rw_approved"
  unfolding s_rw_approved_def
  by (intro reachable_step[OF _ step_respondToAccessRequest]
        reachable_step[OF _ step_createAccessRequest] reachable_s_registered)


lemma requests_s_rw_approved:
  "access_requests s_rw_approved = [(''r1'', approved_r1\<lparr>ar_accessLevel := Read_write\<rparr>)]"
  by (simp add: example_defs handler_defs s_rw_approved_def rw_request_def)

text \<open>
  The write check has no record type to look at: with a grant for the lab reports only,
  the doctor's write to an x-ray passes.
\<close>

lemma write_check_ignores_scope:
  "access_check s_rw_approved ''d1'' ''p1'' ''xray'' Write_mode = Inr () \<and>
   \<not> spec_covers (ar_requestedRecordTypes (approved_r1\<lparr>ar_accessLevel := Read_write\<rparr>))
        ''xray''"
  by (simp add: access_check_def assertDoctorWriteAccess_def requests_s_rw_approved
        approved_r1_def pending_r1_def spec_covers_def)



subsection \<open>C2: one active request per pair\<close>

text \<open>
  Claim C2, evaluated on the code. \<open>createAccessRequest\<close> queries for a pending or
  approved request of the pair and inserts afterwards, with an await and no transaction
  in between. Two calls of the same doctor for the same patient, both started before
  either has written: the query of each finds nothing, both insert, and the execution
  ends with two pending requests of the pair (\<open>r1\<close> and \<open>r2\<close>), so that more than one
  request of a pair is active. Served after the first call has finished, the second is
  refused with 409.
\<close>

theorem overlapping_requests_both_stored:
  "createAccessRequest_read doctor_user lab_request s_registered = Inr () \<and>
   execution (s_two_requests, []) \<and>
   map (\<lambda>(i, r). (i, ar_doctorId r, ar_patientId r, ar_status r))
     (filter (\<lambda>(_, r). overlapping ''d1'' ''p1'' r) (access_requests s_two_requests))
     = [(''r1'', ''d1'', ''p1'', Pending), (''r2'', ''d1'', ''p1'', Pending)] \<and>
   \<not> at_most_one_active s_two_requests \<and>
   fst (createAccessRequest clock1 doctor_user ''r2'' lab_request s_requested) = Inl Conflict"
proof -
  have l: "map (\<lambda>(i, r). (i, ar_doctorId r, ar_patientId r, ar_status r))
     (filter (\<lambda>(_, r). overlapping ''d1'' ''p1'' r) (access_requests s_two_requests))
     = [(''r1'', ''d1'', ''p1'', Pending), (''r2'', ''d1'', ''p1'', Pending)]"
    by code_simp
  have "length (filter (\<lambda>(_, r). overlapping ''d1'' ''p1'' r)
      (access_requests s_two_requests))
      = length (map (\<lambda>(i, r). (i, ar_doctorId r, ar_patientId r, ar_status r))
          (filter (\<lambda>(_, r). overlapping ''d1'' ''p1'' r) (access_requests s_two_requests)))"
    by (simp only: length_map)
  also have "\<dots> = 2" by (simp only: l) simp
  finally have n: "\<not> at_most_one_active s_two_requests"
    unfolding at_most_one_active_def
    by (intro notI) (drule spec[of _ "''d1''"], drule spec[of _ "''p1''"], simp)
  have c: "fst (createAccessRequest clock1 doctor_user ''r2'' lab_request s_requested)
      = Inl Conflict"
    by (simp add: example_defs handler_defs)
  from read_passes_s_registered execution_s_two_requests l n c show ?thesis by simp
qed

subsection \<open>C3: version numbers\<close>

text \<open>
  Claim C3, evaluated on the code. \<open>addRecordVersion\<close> numbers the new version from the
  \<open>currentVersion\<close> it has read, awaits the upload of the file, and then writes that
  number as the \<open>currentVersion\<close> of the record, with no transaction. Two appends to
  a record at version 1 that both read before either commits: the chain gets the
  numbers 1, 2, 2, the current version is 2 and the total count 3. An append that has read at version 1
  and commits after two more appends were served: the current version goes from 3 back
  to 2, and the chain is numbered 1, 2, 3, 2.
\<close>

theorem overlapping_appends_repeat_a_number:
  "execution (s_two_appends, []) \<and>
   map vn_versionNumber (chain s_two_appends ''rec1'') = [1, 2, 2] \<and>
   map_option (\<lambda>r. (rc_currentVersion r, rc_totalVersions r))
     (map_of (records s_two_appends) ''rec1'') = Some (2, 3) \<and>
   (\<exists>pool. execution (s_three_versions, pool) \<and>
           interleaved (s_three_versions, pool) (s_late_commit, [])) \<and>
   map_option rc_currentVersion (map_of (records s_three_versions) ''rec1'') = Some 3 \<and>
   map_option rc_currentVersion (map_of (records s_late_commit) ''rec1'') = Some 2 \<and>
   map vn_versionNumber (chain s_late_commit ''rec1'') = [1, 2, 3, 2]"
proof -
  have a: "map vn_versionNumber (chain s_two_appends ''rec1'') = [1, 2, 2]"
    by code_simp
  have b: "map_option (\<lambda>r. (rc_currentVersion r, rc_totalVersions r))
     (map_of (records s_two_appends) ''rec1'') = Some (2, 3)"
    by code_simp
  have c: "map_option rc_currentVersion (map_of (records s_three_versions) ''rec1'') = Some 3"
    by code_simp
  have d: "map_option rc_currentVersion (map_of (records s_late_commit) ''rec1'') = Some 2"
    by code_simp
  have e: "map vn_versionNumber (chain s_late_commit ''rec1'') = [1, 2, 3, 2]"
    by code_simp
  from execution_s_two_appends slow_append a b c d e show ?thesis by simp
qed

subsection \<open>C4: expiry on approval, and the sweep\<close>




subsection \<open>C5: revoking a grant\<close>



subsection \<open>C6: the rolling average of the response time\<close>

text \<open>
  Claim C6, evaluated on the code. A doctor is approved by two patients, 10 hours and
  20 hours after asking. \<open>respondToAccessRequest\<close> passes no response time to
  \<open>updateDoctorStats\<close>, and the trigger \<open>onAccessRequestResponded\<close> runs on the
  document as created, which is pending, so it returns at once: after the two approvals
  the doctor has two cases and no average. Fed the two samples directly, each after its
  new case, the aggregator does arrive at 15 hours.
\<close>

theorem two_approvals_leave_no_average:
  "map_option (\<lambda>d. (st_totalCasesHandled (dr_stats d), st_averageResponseTimeHours (dr_stats d)))
     (map_of (doctors s_two_approvals) ''d1'') = Some (2, None) \<and>
   map_option (\<lambda>d. (st_totalCasesHandled (dr_stats d), st_averageResponseTimeHours (dr_stats d)))
     (map_of (doctors s_two_samples) ''d1'') = Some (2, Some 15)"
  by code_simp

subsection \<open>C7: the accuracy score after an endorsement\<close>

text \<open>
  Claim C7, evaluated on the code. A doctor who has handled no case is endorsed once.
  The count of the skill goes to 1, and the trigger \<open>onEndorsementCreated\<close> divides by
  1 and writes the score 100, where the service's \<open>recalculateDoctorAccuracyScore\<close>
  would have written nothing. With 3 endorsements and 4 cases the formula gives 88.
\<close>

theorem endorsement_without_cases_scores_100:
  "map_option (\<lambda>d. (st_totalCasesHandled (dr_stats d), dr_endorsementCounts d,
                     st_recordAccuracyScore (dr_stats d)))
     (map_of (doctors s_endorsed) ''d1'') = Some (0, [(''ECG'', 1)], Some 100) \<and>
   map_option (\<lambda>d. st_recordAccuracyScore (dr_stats d))
     (map_of (doctors (recalculateDoctorAccuracyScore ''d1''
        (snd (endorseDoctor clock1 endorser ''e1'' ''d1'' ''ECG'' None s_registered)))) ''d1'')
     = Some None \<and>
   accuracy_score 3 4 = 88"
  by (simp add: scenario_defs example_defs handler_defs)

subsection \<open>C8: responding to a request\<close>

text \<open>
  Claim C8. \<open>respondToAccessRequest\<close> answers 404 for an unknown request id, 403
  when the responder is not the patient of the request, and 409 (the state error) when
  the status of the request is not pending; in each case the database is as before.
  A denial sets the status to denied with \<open>respondedAt\<close> and the note, and writes
  nothing else but one notification and one entry of the activity log: the doctors, the
  patients and every other collection are as before.
\<close>

theorem respond_errors_and_denial:
  "(map_of (access_requests s) requestId = None \<longrightarrow>
      respondToAccessRequest c u requestId approved nte s = (Inl Not_found, s)) \<and>
   (map_of (access_requests s) requestId = Some request \<and> ar_patientId request \<noteq> u_uid u \<longrightarrow>
      respondToAccessRequest c u requestId approved nte s = (Inl Forbidden, s)) \<and>
   (map_of (access_requests s) requestId = Some request \<and> ar_patientId request = u_uid u \<and>
    ar_status request \<noteq> Pending \<longrightarrow>
      respondToAccessRequest c u requestId approved nte s = (Inl Conflict, s)) \<and>
   (map_of (access_requests s) requestId = Some request \<and> ar_patientId request = u_uid u \<and>
    ar_status request = Pending \<longrightarrow>
      (let denied = request\<lparr>ar_status := Denied, ar_respondedAt := Some (ts_now c),
                             ar_note := or_null nte\<rparr>;
           s' = snd (respondToAccessRequest c u requestId False nte s)
       in fst (respondToAccessRequest c u requestId False nte s) = Inr denied \<and>
          map_of (access_requests s') = (map_of (access_requests s))(requestId \<mapsto> denied) \<and>
          doctors s' = doctors s \<and> patients s' = patients s \<and> users s' = users s \<and>
          records s' = records s \<and> record_versions s' = record_versions s \<and>
          commits s' = commits s \<and> endorsements s' = endorsements s \<and>
          length (notifications s') = length (notifications s) + 1 \<and>
          length (activity_log s') = length (activity_log s) + 1))"
  by (auto simp: respondToAccessRequest_def Let_def createNotification_def logActivity_def
        map_of_map_entry fun_eq_iff)

theorem respond_errors_and_denial_witness:
  "respondToAccessRequest clock1 patient_user ''r9'' True None s_requested
     = (Inl Not_found, s_requested) \<and>
   respondToAccessRequest clock1 doctor_user ''r1'' True None s_requested
     = (Inl Forbidden, s_requested) \<and>
   respondToAccessRequest clock1 patient_user ''r1'' False None s_approved
     = (Inl Conflict, s_approved) \<and>
   fst (respondToAccessRequest clock1 patient_user ''r1'' False (Some ''no'') s_requested)
     = Inr (pending_r1\<lparr>ar_status := Denied, ar_respondedAt := Some 2000,
                        ar_note := Some ''no''\<rparr>) \<and>
   doctors (snd (respondToAccessRequest clock1 patient_user ''r1'' False (Some ''no'') s_requested))
     = doctors s_requested \<and>
   patients (snd (respondToAccessRequest clock1 patient_user ''r1'' False (Some ''no'') s_requested))
     = patients s_requested"
proof -
  have a: "respondToAccessRequest clock1 patient_user ''r9'' True None s_requested
     = (Inl Not_found, s_requested)"
    using respond_errors_and_denial[where s = s_requested and requestId = "''r9''"
      and c = clock1 and u = patient_user and approved = True and nte = None] requested_r9
    by simp
  have b: "respondToAccessRequest clock1 doctor_user ''r1'' True None s_requested
     = (Inl Forbidden, s_requested)"
    using respond_errors_and_denial[where s = s_requested and requestId = "''r1''"
      and c = clock1 and u = doctor_user and approved = True and nte = None
      and request = pending_r1] requested_r1
    by (simp add: pending_r1_def doctor_user_def)
  have d: "respondToAccessRequest clock1 patient_user ''r1'' False None s_approved
     = (Inl Conflict, s_approved)"
    using respond_errors_and_denial[where s = s_approved and requestId = "''r1''"
      and c = clock1 and u = patient_user and approved = False and nte = None
      and request = approved_r1] approved_r1
    by (simp add: pending_r1_def approved_r1_def patient_user_def)
  have e: "fst (respondToAccessRequest clock1 patient_user ''r1'' False (Some ''no'') s_requested)
     = Inr (pending_r1\<lparr>ar_status := Denied, ar_respondedAt := Some 2000,
                        ar_note := Some ''no''\<rparr>) \<and>
   doctors (snd (respondToAccessRequest clock1 patient_user ''r1'' False (Some ''no'') s_requested))
     = doctors s_requested \<and>
   patients (snd (respondToAccessRequest clock1 patient_user ''r1'' False (Some ''no'') s_requested))
     = patients s_requested"
    using respond_errors_and_denial[where s = s_requested and requestId = "''r1''"
      and c = clock1 and u = patient_user and nte = "Some ''no''"
      and request = pending_r1] requested_r1
    by (simp add: Let_def pending_r1_def patient_user_def clock1_def or_null_def)
  from a b d e show ?thesis by simp
qed

subsection \<open>C9: the case-completed update\<close>

text \<open>
  Claim C9, as amended. For a doctor who has a profile, the case-completed update
  takes exactly 1 from \<open>activeCases\<close>, with no floor (from 0 it goes to -1), adds 1 to
  today's entry of the activity counter, and sets \<open>lastActiveAt\<close> and \<open>updatedAt\<close>
  to the time of the call; every other field of the profile, and every other doctor,
  is as before. For a doctor without a profile nothing is written.
\<close>

theorem case_completed_amended:
  "(map_of (doctors s) doctorId = Some doc \<longrightarrow>
      (let s' = onCaseCompleted c doctorId s;
           today = (case map_of (dr_contributionGraph doc) (today_key c) of
                      None \<Rightarrow> 1 | Some n \<Rightarrow> n + 1)
       in (\<exists>doc'. map_of (doctors s') doctorId = Some doc' \<and>
             doc' = doc\<lparr>dr_updatedAt := ts_now c,
                        dr_stats := (dr_stats doc)\<lparr>st_lastActiveAt := Some (ts_now c),
                          st_activeCases := st_activeCases (dr_stats doc) - 1\<rparr>,
                        dr_contributionGraph :=
                          increment_entry (today_key c) 1 (dr_contributionGraph doc)\<rparr> \<and>
             st_activeCases (dr_stats doc') = st_activeCases (dr_stats doc) - 1 \<and>
             map_of (dr_contributionGraph doc') (today_key c) = Some today))) \<and>
   (doctorId' \<noteq> doctorId \<longrightarrow>
      map_of (doctors (onCaseCompleted c doctorId s)) doctorId' = map_of (doctors s) doctorId') \<and>
   (map_of (doctors s) doctorId = None \<longrightarrow> onCaseCompleted c doctorId s = s)"
  by (auto simp: onCaseCompleted_def updateDoctorStats_def Let_def no_options_def
        update_conv' increment_entry_lookup split: option.splits)

theorem case_completed_amended_witness:
  "map_option (\<lambda>d. st_activeCases (dr_stats d))
     (map_of (doctors (onCaseCompleted clock1 ''d1'' s_approved)) ''d1'') = Some 0 \<and>
   map_option (\<lambda>d. st_totalCasesHandled (dr_stats d))
     (map_of (doctors (onCaseCompleted clock1 ''d1'' s_approved)) ''d1'') = Some 1 \<and>
   map_option (\<lambda>d. map_of (dr_contributionGraph d) ''2024-01-01'')
     (map_of (doctors (onCaseCompleted clock1 ''d1'' s_approved)) ''d1'') = Some (Some 2) \<and>
   onCaseCompleted clock1 ''d7'' s_approved = s_approved \<and>
   map_of (doctors (onCaseCompleted clock1 ''d7'' s_approved)) ''d1''
     = map_of (doctors s_approved) ''d1''"
proof -
  obtain doc where doc: "map_of (doctors s_approved) ''d1'' = Some doc"
    and st: "st_activeCases (dr_stats doc) = 1" "st_totalCasesHandled (dr_stats doc) = 1"
      "map_of (dr_contributionGraph doc) ''2024-01-01'' = Some 1"
    by (simp add: example_defs handler_defs)
  from case_completed_amended[where s = s_approved and doctorId = "''d1''" and doc = doc
      and c = clock1] doc st
  have a: "map_option (\<lambda>d. st_activeCases (dr_stats d))
     (map_of (doctors (onCaseCompleted clock1 ''d1'' s_approved)) ''d1'') = Some 0 \<and>
   map_option (\<lambda>d. st_totalCasesHandled (dr_stats d))
     (map_of (doctors (onCaseCompleted clock1 ''d1'' s_approved)) ''d1'') = Some 1 \<and>
   map_option (\<lambda>d. map_of (dr_contributionGraph d) ''2024-01-01'')
     (map_of (doctors (onCaseCompleted clock1 ''d1'' s_approved)) ''d1'') = Some (Some 2)"
    by (auto simp: Let_def clock1_def)
  have none: "map_of (doctors s_approved) ''d7'' = None"
    by (simp add: example_defs handler_defs)
  from case_completed_amended[where s = s_approved and doctorId = "''d7''"
      and doctorId' = "''d1''" and c = clock1] none
  have b: "onCaseCompleted clock1 ''d7'' s_approved = s_approved \<and>
   map_of (doctors (onCaseCompleted clock1 ''d7'' s_approved)) ''d1''
     = map_of (doctors s_approved) ''d1''"
    by simp
  from a b show ?thesis by simp
qed

theorem case_completed_counterexample:
  "map_option (\<lambda>d. st_activeCases (dr_stats d)) (map_of (doctors s_registered) ''d1'') = Some 0 \<and>
   map_option (\<lambda>d. st_activeCases (dr_stats d))
     (map_of (doctors (onCaseCompleted clock1 ''d1'' s_registered)) ''d1'') = Some (- 1) \<and>
   map_option dr_contributionGraph (map_of (doctors s_registered) ''d1'') = Some [] \<and>
   map_option dr_contributionGraph
     (map_of (doctors (onCaseCompleted clock1 ''d1'' s_registered)) ''d1'')
       = Some [(''2024-01-01'', 1)]"
  by (simp add: onCaseCompleted_def example_defs handler_defs)

subsection \<open>C10: license number and phone are not disclosed\<close>

text \<open>
  Claim C10. The doctor objects that \<open>discoverDoctors\<close> and \<open>getDoctorProfile\<close>
  return are of a type without the fields \<open>licenseNumber\<close> and \<open>phone\<close>, and the
  whole answer of either handler is the same for two databases whose doctor documents
  differ in those two fields only.
\<close>

theorem sensitive_fields_never_disclosed:
  "same_public s s' \<longrightarrow>
     discoverDoctors q s' = discoverDoctors q s \<and>
     getDoctorProfile doctorId s' = getDoctorProfile doctorId s"
proof
  assume "same_public s s'"
  then have rel: "list_all2 (\<lambda>x y. fst x = fst y \<and> same_but_sensitive (snd x) (snd y))
             (doctors s) (doctors s')"
    and en: "endorsements s' = endorsements s"
    by (simp_all add: same_public_def)
  have d: "discoverDoctors q s' = discoverDoctors q s"
    unfolding discoverDoctors_found discover_public[OF rel] ..
  have "rel_option same_but_sensitive (map_of (doctors s) doctorId) (map_of (doctors s') doctorId)"
    by (rule list_all2_map_of[OF rel])
  then have p: "getDoctorProfile doctorId s' = getDoctorProfile doctorId s"
    by (cases "map_of (doctors s) doctorId"; cases "map_of (doctors s') doctorId")
       (simp_all add: getDoctorProfile_def en publicData_same same_fields Let_def)
  from d p show "discoverDoctors q s' = discoverDoctors q s \<and>
     getDoctorProfile doctorId s' = getDoctorProfile doctorId s" ..
qed


lemma doctors_s_registered:
  "doctors s_registered =
     [(''d1'', \<lparr>dr_uid = ''d1'', dr_displayName = ''Dora'', dr_specialization = ''cardiology'',
           dr_qualifications = [''MD''], dr_licenseNumber = ''L-1234'',
           dr_hospitalAffiliations = [], dr_phone = None, dr_yearsOfExperience = 0,
           dr_isVerified = True,
           dr_stats = \<lparr>st_totalCasesHandled = 0, st_activeCases = 0, st_totalRecordsAdded = 0,
                        st_totalRecordsUpdated = 0, st_averageResponseTimeHours = None,
                        st_recordAccuracyScore = None, st_lastActiveAt = None\<rparr>,
           dr_conditionTags = [], dr_contributionGraph = [], dr_endorsementCounts = [],
           dr_createdAt = 1000, dr_updatedAt = 1000\<rparr>)]"
  by (simp add: example_defs handler_defs)

theorem sensitive_fields_never_disclosed_witness:
  "same_public s_registered s_other_license \<and>
   map_option dr_licenseNumber (map_of (doctors s_registered) ''d1'') = Some ''L-1234'' \<and>
   map_option dr_licenseNumber (map_of (doctors s_other_license) ''d1'') = Some ''L-9999'' \<and>
   discoverDoctors all_doctors s_other_license = discoverDoctors all_doctors s_registered \<and>
   getDoctorProfile ''d1'' s_other_license = getDoctorProfile ''d1'' s_registered \<and>
   map pd_uid (fst (discoverDoctors all_doctors s_registered)) = [''d1'']"
proof -
  have a: "same_public s_registered s_other_license"
    by (simp add: same_public_def same_but_sensitive_def s_other_license_def
          doctors_s_registered)
  have b: "map_option dr_licenseNumber (map_of (doctors s_registered) ''d1'') = Some ''L-1234''"
    "map_option dr_licenseNumber (map_of (doctors s_other_license) ''d1'') = Some ''L-9999''"
    by (simp_all add: s_other_license_def doctors_s_registered)
  have d: "map pd_uid (fst (discoverDoctors all_doctors s_registered)) = [''d1'']"
    by (simp add: discoverDoctors_def all_doctors_def doctors_s_registered Let_def
          publicData_def sort_by_def js_slice_def)
  from sensitive_fields_never_disclosed[where s = s_registered and s' = s_other_license
      and q = all_doctors and doctorId = "''d1''"] a b d
  show ?thesis by simp
qed

end
